theory Spec2Isabelle
  imports Main "HOL-Library.Multiset"
begin

section \<open>JavaScript strings and numbers\<close>

text \<open>
  The program is TypeScript. A string is a \<^typ>\<open>string\<close>, with the 8-bit characters of
  HOL. A Number that holds an integer is the \<^typ>\<open>int\<close> it equals, and a Number that may
  be \<open>NaN\<close> is an \<^typ>\<open>int option\<close> with \<open>None\<close> for \<open>NaN\<close>. Numbers are doubles:
  \<open>roundToDouble\<close> is the nearest double of a natural number, ties to even, and
  \<open>showDouble\<close> is the decimal text of a double that is a natural number, as a template
  string prints it (the shortest digits that read back as the same double, with an
  exponent from \<open>1e21\<close>). The program reads numbers from at most 64 hexadecimal digits,
  far below the doubles that overflow to \<open>Infinity\<close>, which the model does not have.
\<close>

type_synonym number = "int option"

fun bitlen :: "nat \<Rightarrow> nat" where
  "bitlen n = (if n = 0 then 0 else Suc (bitlen (n div 2)))"

declare bitlen.simps [simp del]

definition roundToDouble :: "nat \<Rightarrow> nat" where
  "roundToDouble n =
     (if bitlen n \<le> 53 then n
      else
        (let e = bitlen n - 53; q = n div 2 ^ e; r = n mod 2 ^ e; half = 2 ^ (e - 1)
         in if half < r \<or> (r = half \<and> odd q) then (q + 1) * 2 ^ e else q * 2 ^ e))"

definition roundInt :: "int \<Rightarrow> int" where
  "roundInt i = (if i < 0 then - int (roundToDouble (nat (- i))) else int (roundToDouble (nat i)))"

definition toIntegerOrInfinity :: "number \<Rightarrow> int" where
  \<comment> \<open>the conversion of an index argument: \<open>NaN\<close> becomes 0\<close>
  "toIntegerOrInfinity x = (case x of None \<Rightarrow> 0 | Some i \<Rightarrow> i)"

definition times2 :: "number \<Rightarrow> number" where
  \<comment> \<open>\<open>x * 2\<close>, which is \<open>NaN\<close> for \<open>NaN\<close>\<close>
  "times2 x = map_option (\<lambda>i. i * 2) x"

definition clampIndex :: "int \<Rightarrow> string \<Rightarrow> nat" where
  "clampIndex i s = nat (min (max i 0) (int (length s)))"

definition substring :: "string \<Rightarrow> int \<Rightarrow> int \<Rightarrow> string" where
  \<comment> \<open>\<open>s.substring(a, b)\<close>: both indices are clamped to the string and swapped when
      \<open>a > b\<close>\<close>
  "substring s a b =
     (let finalStart = clampIndex a s; finalEnd = clampIndex b s;
          from = min finalStart finalEnd; to = max finalStart finalEnd
      in take (to - from) (drop from s))"

definition substringFrom :: "string \<Rightarrow> int \<Rightarrow> string" where
  \<comment> \<open>\<open>s.substring(a)\<close>\<close>
  "substringFrom s a = substring s a (int (length s))"

definition padStart :: "string \<Rightarrow> nat \<Rightarrow> char \<Rightarrow> string" where
  "padStart s n c = (if n \<le> length s then s else replicate (n - length s) c @ s)"

definition padEnd :: "string \<Rightarrow> nat \<Rightarrow> char \<Rightarrow> string" where
  "padEnd s n c = (if n \<le> length s then s else s @ replicate (n - length s) c)"

definition startsWith :: "string \<Rightarrow> string \<Rightarrow> bool" where
  \<comment> \<open>\<open>s.startsWith(p)\<close>\<close>
  "startsWith s p = (take (length p) s = p)"

definition endsWith :: "string \<Rightarrow> string \<Rightarrow> bool" where
  \<comment> \<open>\<open>s.endsWith(p)\<close>\<close>
  "endsWith s p = (length p \<le> length s \<and> drop (length s - length p) s = p)"

fun includesStr :: "string \<Rightarrow> string \<Rightarrow> bool" where
  \<comment> \<open>\<open>s.includes(p)\<close>\<close>
  "includesStr [] p = (p = [])"
| "includesStr (c # cs) p = (startsWith (c # cs) p \<or> includesStr cs p)"

definition isWhiteSpace :: "char \<Rightarrow> bool" where
  \<comment> \<open>white space and line terminators, as \<open>trim\<close>, \<open>parseInt\<close> and the regular
      expression class \<open>\s\<close> see them (among 8-bit characters)\<close>
  "isWhiteSpace c = ((of_char c :: nat) \<in> {9, 10, 11, 12, 13, 32, 160})"

definition isLineTerminator :: "char \<Rightarrow> bool" where
  "isLineTerminator c = ((of_char c :: nat) \<in> {10, 13})"

definition trim :: "string \<Rightarrow> string" where
  "trim s = rev (dropWhile isWhiteSpace (rev (dropWhile isWhiteSpace s)))"

definition toLowerCase :: "string \<Rightarrow> string" where
  "toLowerCase s =
     map (\<lambda>c. if 65 \<le> (of_char c :: nat) \<and> (of_char c :: nat) \<le> 90
               then char_of ((of_char c :: nat) + 32) else c) s"

fun join :: "string \<Rightarrow> string list \<Rightarrow> string" where
  \<comment> \<open>\<open>xs.join(sep)\<close>\<close>
  "join sep [] = []"
| "join sep [x] = x"
| "join sep (x # y # ys) = x @ sep @ join sep (y # ys)"

definition digitChar :: "nat \<Rightarrow> char" where
  "digitChar d = char_of (48 + d)"

fun showNat :: "nat \<Rightarrow> string" where
  "showNat n = (if n < 10 then [digitChar n] else showNat (n div 10) @ [digitChar (n mod 10)])"

declare showNat.simps [simp del]

definition showInt :: "int \<Rightarrow> string" where
  "showInt i = (if i < 0 then CHR ''-'' # showNat (nat (- i)) else showNat (nat i))"

fun shortestFrom :: "nat \<Rightarrow> nat \<Rightarrow> nat \<times> nat" where
  "shortestFrom x 0 = (x, 0)"
| "shortestFrom x (Suc e) =
     (let p = 10 ^ Suc e; lo = x div p; hi = lo + 1;
          okLo = (0 < lo \<and> roundToDouble (lo * p) = x);
          okHi = (roundToDouble (hi * p) = x)
      in if okLo \<and> okHi then
           (if x - lo * p < hi * p - x then (lo, Suc e)
            else if hi * p - x < x - lo * p then (hi, Suc e)
            else if even lo then (lo, Suc e) else (hi, Suc e))
         else if okLo then (lo, Suc e)
         else if okHi then (hi, Suc e)
         else shortestFrom x e)"

definition showDouble :: "nat \<Rightarrow> string" where
  "showDouble x =
     (if x < 2 ^ 53 then showNat x
      else
        (let se = shortestFrom x (length (showNat x));
             ds = showNat (fst se); k = length ds; n = k + snd se
         in if n \<le> 21 then ds @ replicate (snd se) CHR ''0''
            else (if k = 1 then ds else take 1 ds @ ''.'' @ drop 1 ds) @ ''e+'' @ showNat (n - 1)))"

definition showNumber :: "number \<Rightarrow> string" where
  \<comment> \<open>a Number inside a template string\<close>
  "showNumber x =
     (case x of
        None \<Rightarrow> ''NaN''
      | Some i \<Rightarrow> if i < 0 then CHR ''-'' # showDouble (nat (- i)) else showDouble (nat i))"

definition hexDigitValue :: "char \<Rightarrow> nat option" where
  "hexDigitValue c =
     (let n = (of_char c :: nat)
      in if 48 \<le> n \<and> n \<le> 57 then Some (n - 48)
         else if 97 \<le> n \<and> n \<le> 102 then Some (n - 87)
         else if 65 \<le> n \<and> n \<le> 70 then Some (n - 55)
         else None)"

definition isHexDigit :: "char \<Rightarrow> bool" where
  "isHexDigit c = (hexDigitValue c \<noteq> None)"

definition hexValue :: "string \<Rightarrow> nat" where
  "hexValue s = foldl (\<lambda>acc c. 16 * acc + (case hexDigitValue c of Some d \<Rightarrow> d | None \<Rightarrow> 0)) 0 s"

definition parseInt16 :: "string \<Rightarrow> number" where
  \<comment> \<open>\<open>parseInt(s, 16)\<close>: leading white space, a sign and a \<open>0x\<close> prefix are skipped,
      the longest run of hexadecimal digits is read and rounded to a double, and no digit
      at all gives \<open>NaN\<close>\<close>
  "parseInt16 s =
     (let s1 = dropWhile isWhiteSpace s;
          sign = (if take 1 s1 = ''-'' then - 1 else (1::int));
          s2 = (if take 1 s1 = ''-'' \<or> take 1 s1 = ''+'' then drop 1 s1 else s1);
          s3 = (if take 2 s2 = ''0x'' \<or> take 2 s2 = ''0X'' then drop 2 s2 else s2);
          z = takeWhile isHexDigit s3
      in if z = [] then None else Some (sign * int (roundToDouble (hexValue z))))"

section \<open>ABI parameters and breakdown parts\<close>

text \<open>
  \<open>AbiParameter\<close> is the type the parameter parser returns: a type string, an optional
  name and, for tuples, the components. \<open>CalldataPart\<close> is the display node of the
  breakdown.
\<close>

datatype AbiParameter =
  AbiParameter (abi_type: string) (abi_name: "string option")
    (abi_components: "AbiParameter list option")

datatype CalldataPart =
  CalldataPart (part_name: string) (part_type: string) (part_value: string)
    (part_description: "string option") (part_components: "CalldataPart list option")

record DynamicItem =
  item_param :: AbiParameter
  item_name :: string
  item_offset :: number

fun isDynamic :: "AbiParameter \<Rightarrow> bool" where
  "isDynamic (AbiParameter t n cs) =
     (if endsWith t ''[]'' \<or> t = ''string'' \<or> t = ''bytes'' then True
      else (case cs of Some comps \<Rightarrow> list_ex isDynamic comps | None \<Rightarrow> False))"

definition padTo32Bytes :: "string \<Rightarrow> string \<Rightarrow> string" where
  "padTo32Bytes hex t =
     (if startsWith t ''uint'' \<or> startsWith t ''int'' \<or> t = ''address''
      then padStart hex 64 CHR ''0''
      else if startsWith t ''bytes'' \<and> \<not> endsWith t '']''
      then padEnd hex 64 CHR ''0''
      else hex)"

section \<open>The decomposer\<close>

text \<open>
  \<open>buildFlatBreakdown\<close> walks the head of the window, one step per parameter
  (\<open>headStep\<close> is the body of the source's first \<open>forEach\<close>; its argument \<open>rec\<close> is
  the function itself, called on the components of a static tuple), sorts the recorded
  dynamic items by offset and parses the window of each with \<open>parseDynamicData\<close>.
  \<open>Array.prototype.sort\<close> is stable; \<open>sortByOffset\<close> is the stable insertion sort with
  the source's comparator, where a \<open>NaN\<close> difference counts as 0. (With a \<open>NaN\<close> offset
  the comparator is inconsistent and ECMAScript leaves the order to the implementation.)
\<close>

definition paramNameOf :: "AbiParameter \<Rightarrow> nat \<Rightarrow> string" where
  "paramNameOf p i =
     (case abi_name p of
        Some n \<Rightarrow> if n = [] then ''param'' @ showNat i else n
      | None \<Rightarrow> ''param'' @ showNat i)"

definition compareOffset :: "DynamicItem \<Rightarrow> DynamicItem \<Rightarrow> int" where
  "compareOffset a b =
     (case (item_offset a, item_offset b) of
        (Some x, Some y) \<Rightarrow> roundInt (x - y)
      | _ \<Rightarrow> 0)"

fun insertItem :: "DynamicItem \<Rightarrow> DynamicItem list \<Rightarrow> DynamicItem list" where
  "insertItem x [] = [x]"
| "insertItem x (y # ys) = (if compareOffset x y \<le> 0 then x # y # ys else y # insertItem x ys)"

definition sortByOffset :: "DynamicItem list \<Rightarrow> DynamicItem list" where
  "sortByOffset items = foldr insertItem items []"

type_synonym breakdown = "CalldataPart list \<times> CalldataPart list"

definition headStep ::
  "(AbiParameter list \<Rightarrow> string \<Rightarrow> breakdown) \<Rightarrow> string \<Rightarrow>
   CalldataPart list \<times> DynamicItem list \<times> int \<Rightarrow> AbiParameter \<times> nat \<Rightarrow>
   CalldataPart list \<times> DynamicItem list \<times> int" where
  "headStep rec encodedDataHex st pi =
     (case st of (headParts, dynamicItems, headCursor) \<Rightarrow>
      case pi of (p, i) \<Rightarrow>
        let paramName = paramNameOf p i in
        if isDynamic p then
          let headSlotHex = substring encodedDataHex headCursor (headCursor + 64);
              offset = parseInt16 headSlotHex
          in (headParts @
                [CalldataPart (paramName @ '' ('' @ abi_type p @ '')'') ''bytes32''
                   (''0x'' @ headSlotHex)
                   (Some (''Offset to data at byte '' @ showNumber offset)) None],
              dynamicItems @ [\<lparr>item_param = p, item_name = paramName, item_offset = offset\<rparr>],
              headCursor + 64)
        else
          (case (if abi_type p = ''tuple'' then abi_components p else None) of
             Some comps \<Rightarrow>
               let tupleDataLength = int (length comps) * 64;
                   staticTupleData =
                     substring encodedDataHex headCursor (headCursor + tupleDataLength);
                   nested = rec comps staticTupleData
               in (headParts @
                     [CalldataPart (paramName @ '' ('' @ abi_type p @ '')'') ''tuple''
                        (''0x'' @ staticTupleData) None (Some (fst nested @ snd nested))],
                   dynamicItems,
                   headCursor + tupleDataLength)
           | None \<Rightarrow>
               let headSlotHex = substring encodedDataHex headCursor (headCursor + 64)
               in (headParts @
                     [CalldataPart (paramName @ '' ('' @ abi_type p @ '')'') ''bytes32''
                        (''0x'' @ padTo32Bytes headSlotHex (abi_type p)) None None],
                   dynamicItems,
                   headCursor + 64)))"

lemma headStep_cong [fundef_cong]:
  assumes "d = d'" "st = st'" "pi = pi'"
    and "\<And>comps w. abi_components (fst pi') = Some comps \<Longrightarrow> rec comps w = rec' comps w"
  shows "headStep rec d st pi = headStep rec' d' st' pi'"
  using assms
  by (auto simp: headStep_def Let_def split: prod.splits option.splits)

lemma size_components_less:
  "abi_components p = Some comps \<Longrightarrow> size_list size comps < size p"
  by (cases p) simp

lemma size_member_less: "p \<in> set ps \<Longrightarrow> size p < size_list size ps"
  by (induction ps) auto

lemma set_insertItem: "set (insertItem x ys) = insert x (set ys)"
  by (induction ys) auto

lemma set_sortByOffset: "set (sortByOffset items) = set items"
  unfolding sortByOffset_def by (induction items) (simp_all add: set_insertItem)

lemma length_insertItem: "length (insertItem x ys) = Suc (length ys)"
  by (induction ys) auto

lemma length_sortByOffset: "length (sortByOffset items) = length items"
  unfolding sortByOffset_def by (induction items) (simp_all add: length_insertItem)

lemma headStep_items:
  "item_param ` set (fst (snd (headStep rec d st pi)))
     \<subseteq> item_param ` set (fst (snd st)) \<union> {fst pi}"
  by (auto simp: headStep_def Let_def split: prod.splits option.splits)

lemma foldl_headStep_items:
  "item_param ` set (fst (snd (foldl (headStep rec d) st xs)))
     \<subseteq> item_param ` set (fst (snd st)) \<union> fst ` set xs"
proof (induction xs arbitrary: st)
  case Nil
  show ?case by simp
next
  case (Cons x xs)
  show ?case
    using Cons.IH [of "headStep rec d st x"] headStep_items [of rec d st x]
    by auto
qed

function buildFlatBreakdown :: "AbiParameter list \<Rightarrow> string \<Rightarrow> breakdown"
  and parseDynamicData :: "AbiParameter \<Rightarrow> string \<Rightarrow> CalldataPart list" where
  "buildFlatBreakdown params encodedDataHex =
     (let st = foldl (headStep buildFlatBreakdown encodedDataHex) ([], [], 0)
                 (zip params [0..<length params]);
          headParts = fst st;
          dynamicItems = sortByOffset (fst (snd st));
          tailParts =
            map (\<lambda>i.
                  let item = dynamicItems ! i;
                      dataStart = times2 (item_offset item);
                      dataEnd = (if i + 1 < length dynamicItems
                                 then times2 (item_offset (dynamicItems ! (i + 1)))
                                 else Some (int (length encodedDataHex)));
                      itemDataHex = substring encodedDataHex (toIntegerOrInfinity dataStart)
                                      (toIntegerOrInfinity dataEnd)
                  in CalldataPart (''Tail for '' @ item_name item) (abi_type (item_param item))
                       ''(see components)''
                       (Some (''Data located at byte '' @ showNumber (item_offset item)))
                       (Some (parseDynamicData (item_param item) itemDataHex)))
              [0..<length dynamicItems]
      in (headParts, tailParts))"
| "parseDynamicData p dataHex =
     (if endsWith (abi_type p) ''[]'' then
        let elementType = take (length (abi_type p) - 2) (abi_type p);
            len = parseInt16 (substring dataHex 0 64);
            itemsDataHex = substringFrom dataHex 64
        in CalldataPart ''length'' ''uint256'' (''0x'' @ substring dataHex 0 64)
             (Some (showNumber len)) None #
           map (\<lambda>i.
                 let itemCursor = int i * 64;
                     itemHex = substring itemsDataHex itemCursor (itemCursor + 64)
                 in CalldataPart (''['' @ showNat i @ '']'') elementType
                      (''0x'' @ padTo32Bytes itemHex elementType) None None)
             [0..<nat (toIntegerOrInfinity len)]
      else if abi_type p = ''string'' \<or> abi_type p = ''bytes'' then
        let len = parseInt16 (substring dataHex 0 64);
            data = substring dataHex 64
                     (toIntegerOrInfinity (map_option (\<lambda>l. roundInt (64 + l * 2)) len));
            paddedData = padEnd data ((length data + 63) div 64 * 64) CHR ''0''
        in [CalldataPart ''length'' ''uint256'' (''0x'' @ substring dataHex 0 64)
              (Some (showNumber len)) None,
            CalldataPart ''value'' (if abi_type p = ''string'' then ''utf8'' else ''hex'')
              (''0x'' @ paddedData) (Some (''Original data: 0x'' @ data)) None]
      else
        (case abi_components p of
           Some comps \<Rightarrow>
             let r = buildFlatBreakdown comps dataHex in fst r @ snd r
         | None \<Rightarrow>
             [CalldataPart ''data'' ''bytes'' (''0x'' @ dataHex) (Some ''Raw dynamic data'') None]))"
  by pat_completeness auto
termination
proof (relation "measure (\<lambda>x. case x of Inl (ps, d) \<Rightarrow> size_list size ps | Inr (p, d) \<Rightarrow> size p)", goal_cases)
  case 1
  show ?case by simp
next
  case (2 params encodedDataHex a x comps w)
  then have "fst x \<in> set params"
    by (metis set_zip_leftD prod.collapse)
  with 2 show ?case
    using size_components_less [of "fst x" comps] size_member_less [of "fst x" params]
    by simp
next
  case (3 params encodedDataHex st headParts dynamicItems i item dataStart dataEnd itemDataHex)
  then have "dynamicItems ! i \<in> set (fst (snd st))"
    using set_sortByOffset nth_mem by (metis atLeastLessThan_iff set_upt)
  then have "item_param (dynamicItems ! i) \<in> fst ` set (zip params [0..<length params])"
    using foldl_headStep_items [of buildFlatBreakdown encodedDataHex "([], [], 0)" "zip params [0..<length params]"] 3(1)
    by auto
  then have "item_param (dynamicItems ! i) \<in> set params"
    by (auto dest: set_zip_leftD)
  with 3 show ?case
    using size_member_less [of "item_param item" params] by simp
next
  case (4 p dataHex comps)
  then show ?case
    using size_components_less by simp
qed


declare buildFlatBreakdown.simps [simp del] parseDynamicData.simps [simp del]

text \<open>
  Names for what the second pass of \<open>buildFlatBreakdown\<close> computes: the items as recorded,
  the window \<open>itemDataHex\<close> of the \<open>i\<close>-th sorted item, and the character index at which
  that window starts.
\<close>

definition recordedItems :: "AbiParameter list \<Rightarrow> string \<Rightarrow> DynamicItem list" where
  \<comment> \<open>the dynamic items after the first pass of \<open>buildFlatBreakdown\<close>, before sorting\<close>
  "recordedItems params encodedDataHex =
     fst (snd (foldl (headStep buildFlatBreakdown encodedDataHex) ([], [], 0)
                 (zip params [0..<length params])))"

definition contentWindow :: "string \<Rightarrow> DynamicItem list \<Rightarrow> nat \<Rightarrow> string" where
  \<comment> \<open>\<open>itemDataHex\<close> of the \<open>i\<close>-th item in the second pass\<close>
  "contentWindow encodedDataHex dynamicItems i =
     substring encodedDataHex
       (toIntegerOrInfinity (times2 (item_offset (dynamicItems ! i))))
       (toIntegerOrInfinity
          (if i + 1 < length dynamicItems
           then times2 (item_offset (dynamicItems ! (i + 1)))
           else Some (int (length encodedDataHex))))"

definition windowBound :: "string \<Rightarrow> DynamicItem list \<Rightarrow> nat \<Rightarrow> nat" where
  \<comment> \<open>the character index where the window of item \<open>i\<close> starts; the end of the data
      past the last item\<close>
  "windowBound encodedDataHex dynamicItems i =
     (if i < length dynamicItems
      then clampIndex (toIntegerOrInfinity (times2 (item_offset (dynamicItems ! i))))
             encodedDataHex
      else length encodedDataHex)"

definition exampleTwoStrings :: "AbiParameter list" where
  "exampleTwoStrings = [AbiParameter ''string'' (Some ''a'') None, AbiParameter ''string'' (Some ''b'') None]"

definition exampleSwappedTails :: string where
  "exampleSwappedTails = ''000000000000000000000000000000000000000000000000000000000000006000000000000000000000000000000000000000000000000000000000000000400000000000000000000000000000000000000000000000000000000000000001610000000000000000000000000000000000000000000000000000000000000000000000000000000000000000000000000000000000000000000000000000026869000000000000000000000000000000000000000000000000000000000000''"

text \<open>
  The first pass, one parameter at a time: what a step pushes, what it records and by
  how much it advances the cursor; and the tail part of the second pass.
\<close>

definition slotChars :: "AbiParameter \<Rightarrow> int" where
  \<comment> \<open>by how many characters one step of the first pass advances \<open>headCursor\<close>\<close>
  "slotChars p =
     (if isDynamic p then 64
      else case (if abi_type p = ''tuple'' then abi_components p else None) of
             Some comps \<Rightarrow> int (length comps) * 64
           | None \<Rightarrow> 64)"

definition headPart :: "string \<Rightarrow> AbiParameter \<Rightarrow> nat \<Rightarrow> int \<Rightarrow> CalldataPart" where
  \<comment> \<open>the head part that the first pass pushes for parameter \<open>p\<close> at index \<open>i\<close> with the
      cursor at \<open>cur\<close>\<close>
  "headPart d p i cur =
     (if isDynamic p then
        CalldataPart (paramNameOf p i @ '' ('' @ abi_type p @ '')'') ''bytes32''
          (''0x'' @ substring d cur (cur + 64))
          (Some (''Offset to data at byte '' @ showNumber (parseInt16 (substring d cur (cur + 64)))))
          None
      else case (if abi_type p = ''tuple'' then abi_components p else None) of
             Some comps \<Rightarrow>
               CalldataPart (paramNameOf p i @ '' ('' @ abi_type p @ '')'') ''tuple''
                 (''0x'' @ substring d cur (cur + int (length comps) * 64)) None
                 (Some (fst (buildFlatBreakdown comps
                               (substring d cur (cur + int (length comps) * 64))) @
                        snd (buildFlatBreakdown comps
                               (substring d cur (cur + int (length comps) * 64)))))
           | None \<Rightarrow>
               CalldataPart (paramNameOf p i @ '' ('' @ abi_type p @ '')'') ''bytes32''
                 (''0x'' @ padTo32Bytes (substring d cur (cur + 64)) (abi_type p)) None None)"

definition headItem :: "string \<Rightarrow> AbiParameter \<Rightarrow> nat \<Rightarrow> int \<Rightarrow> DynamicItem list" where
  \<comment> \<open>the dynamic item that the same step records, if any\<close>
  "headItem d p i cur =
     (if isDynamic p
      then [\<lparr>item_param = p, item_name = paramNameOf p i,
             item_offset = parseInt16 (substring d cur (cur + 64))\<rparr>]
      else [])"

fun headPartsFrom :: "string \<Rightarrow> int \<Rightarrow> nat \<Rightarrow> AbiParameter list \<Rightarrow> CalldataPart list" where
  "headPartsFrom d cur i [] = []"
| "headPartsFrom d cur i (p # ps) =
     headPart d p i cur # headPartsFrom d (cur + slotChars p) (Suc i) ps"

fun itemsFrom :: "string \<Rightarrow> int \<Rightarrow> nat \<Rightarrow> AbiParameter list \<Rightarrow> DynamicItem list" where
  "itemsFrom d cur i [] = []"
| "itemsFrom d cur i (p # ps) = headItem d p i cur @ itemsFrom d (cur + slotChars p) (Suc i) ps"

definition tailPart :: "string \<Rightarrow> DynamicItem list \<Rightarrow> nat \<Rightarrow> CalldataPart" where
  \<comment> \<open>the tail part that the second pass pushes for the \<open>i\<close>-th sorted item\<close>
  "tailPart d dynamicItems i =
     CalldataPart (''Tail for '' @ item_name (dynamicItems ! i))
       (abi_type (item_param (dynamicItems ! i))) ''(see components)''
       (Some (''Data located at byte '' @ showNumber (item_offset (dynamicItems ! i))))
       (Some (parseDynamicData (item_param (dynamicItems ! i))
                (contentWindow d dynamicItems i)))"

section \<open>Doubles\<close>

lemma bitlen_bounds: "0 < n \<Longrightarrow> 2 ^ (bitlen n - 1) \<le> n \<and> n < 2 ^ bitlen n"
proof (induction n rule: bitlen.induct)
  case (1 n)
  have b: "bitlen n = Suc (bitlen (n div 2))" using "1.prems" by (simp add: bitlen.simps [of n])
  show ?case
  proof (cases "n div 2 = 0")
    case True
    then have n: "n = 1" using "1.prems" by (simp add: div_eq_0_iff)
    have "bitlen (n div 2) = 0" using True by (simp add: bitlen.simps [of 0])
    then have "bitlen n = 1" by (simp add: b)
    then show ?thesis unfolding n by simp
  next
    case False
    then have ih: "2 ^ (bitlen (n div 2) - 1) \<le> n div 2" "n div 2 < 2 ^ bitlen (n div 2)"
      using "1.IH" "1.prems" by auto
    have pos: "0 < bitlen (n div 2)" using False by (simp add: bitlen.simps [of "n div 2"])
    then have "(2::nat) ^ bitlen (n div 2) = 2 * 2 ^ (bitlen (n div 2) - 1)"
      by (simp add: power_eq_if)
    then have "(2::nat) ^ (bitlen n - 1) = 2 * 2 ^ (bitlen (n div 2) - 1)"
      by (simp add: b)
    moreover have "2 * (n div 2) \<le> n" by simp
    moreover have "n < 2 * (n div 2) + 2" by presburger
    moreover have "(2::nat) ^ bitlen n = 2 * 2 ^ bitlen (n div 2)" by (simp add: b)
    ultimately show ?thesis using ih by linarith
  qed
qed

lemma bitlen_small: "n < 2 ^ k \<Longrightarrow> bitlen n \<le> k"
proof (cases "n = 0")
  case True
  then show ?thesis by (simp add: bitlen.simps [of 0])
next
  case False
  assume "n < 2 ^ k"
  moreover have "(2::nat) ^ (bitlen n - 1) \<le> n" using bitlen_bounds [of n] False by blast
  ultimately have "(2::nat) ^ (bitlen n - 1) < 2 ^ k" by linarith
  then have "bitlen n - 1 < k" using power_less_imp_less_exp [of 2 "bitlen n - 1" k] by simp
  then show ?thesis by simp
qed

lemma roundToDouble_small: "n < 2 ^ 53 \<Longrightarrow> roundToDouble n = n"
  by (simp add: roundToDouble_def bitlen_small)

lemma roundToDouble_pos:
  assumes "0 < n"
  shows "0 < roundToDouble n"
proof (cases "bitlen n \<le> 53")
  case True
  then show ?thesis using assms by (simp add: roundToDouble_def)
next
  case False
  define e where "e = bitlen n - 53"
  have "e \<le> bitlen n - 1" by (simp add: e_def)
  then have "(2::nat) ^ e \<le> 2 ^ (bitlen n - 1)"
    by (rule power_increasing) simp
  then have "2 ^ e \<le> n" using bitlen_bounds [OF assms] by linarith
  then have "0 < n div 2 ^ e" by (simp add: div_greater_zero_iff)
  then show ?thesis using False by (simp add: roundToDouble_def Let_def e_def)
qed

lemma roundInt_sign: "(roundInt i \<le> 0) = (i \<le> 0)"
proof (cases "i \<le> 0")
  case True
  then show ?thesis by (cases "i = 0") (simp_all add: roundInt_def roundToDouble_small)
next
  case False
  then have "0 < roundToDouble (nat i)" by (intro roundToDouble_pos) simp
  then show ?thesis using False by (simp add: roundInt_def)
qed

lemma showDouble_small: "x < 2 ^ 53 \<Longrightarrow> showDouble x = showNat x"
  by (simp add: showDouble_def)

declare roundToDouble_small [simp] showDouble_small [simp] roundInt_sign [simp]

section \<open>The windows of the dynamic items\<close>

lemma tailParts_components:
  "map part_components (snd (buildFlatBreakdown params d)) =
     map (\<lambda>i. Some (parseDynamicData
                       (item_param (sortByOffset (recordedItems params d) ! i))
                       (contentWindow d (sortByOffset (recordedItems params d)) i)))
       [0..<length (sortByOffset (recordedItems params d))]"
  by (simp add: buildFlatBreakdown.simps Let_def recordedItems_def contentWindow_def)

lemma insertItem_insort:
  "item_offset x \<noteq> None \<Longrightarrow> \<forall>y \<in> set ys. item_offset y \<noteq> None \<Longrightarrow>
   insertItem x ys = insort_key (\<lambda>a. the (item_offset a)) x ys"
  by (induction ys) (auto simp: compareOffset_def roundInt_sign)

lemma sortByOffset_sort_key:
  "\<forall>y \<in> set items. item_offset y \<noteq> None \<Longrightarrow>
   sortByOffset items = sort_key (\<lambda>a. the (item_offset a)) items"
proof (induction items)
  case Nil
  show ?case by (simp add: sortByOffset_def)
next
  case (Cons x xs)
  then have "sortByOffset xs = sort_key (\<lambda>a. the (item_offset a)) xs" by simp
  moreover have "\<forall>y \<in> set (sort_key (\<lambda>a. the (item_offset a)) xs). item_offset y \<noteq> None"
    using Cons.prems by simp
  ultimately show ?case
    using Cons.prems insertItem_insort [of x "sort_key (\<lambda>a. the (item_offset a)) xs"]
    by (simp add: sortByOffset_def)
qed

lemma clampIndex_mono: "a \<le> b \<Longrightarrow> clampIndex a s \<le> clampIndex b s"
  by (simp add: clampIndex_def)

lemma clampIndex_le: "clampIndex a s \<le> length s"
  by (simp add: clampIndex_def)

lemma clampIndex_length: "clampIndex (int (length s)) s = length s"
  by (simp add: clampIndex_def)

lemma substring_ordered:
  "clampIndex a s \<le> clampIndex b s \<Longrightarrow>
   substring s a b = take (clampIndex b s - clampIndex a s) (drop (clampIndex a s) s)"
  by (simp add: substring_def Let_def min_def max_def)

lemma windowBound_mono:
  assumes "sorted (map (\<lambda>a. the (item_offset a)) items)"
    and "\<forall>y \<in> set items. item_offset y \<noteq> None"
  shows "windowBound d items i \<le> windowBound d items (Suc i)"
proof (cases "Suc i < length items")
  case True
  then have "the (item_offset (items ! i)) \<le> the (item_offset (items ! Suc i))"
    using assms(1) sorted_nth_mono [of "map (\<lambda>a. the (item_offset a)) items" i "Suc i"] by simp
  moreover obtain a b where "item_offset (items ! i) = Some a" "item_offset (items ! Suc i) = Some b"
    using assms(2) True by (metis Suc_lessD nth_mem option.exhaust)
  ultimately show ?thesis
    using True by (simp add: windowBound_def times2_def toIntegerOrInfinity_def clampIndex_mono)
next
  case False
  then show ?thesis by (simp add: windowBound_def clampIndex_le)
qed

lemma contentWindow_bounds:
  assumes "windowBound d items i \<le> windowBound d items (Suc i)" and "i < length items"
  shows "contentWindow d items i =
     take (windowBound d items (Suc i) - windowBound d items i) (drop (windowBound d items i) d)"
  using assms substring_ordered
  by (auto simp: contentWindow_def windowBound_def toIntegerOrInfinity_def clampIndex_length)

lemma contentWindow_offsets:
  assumes "map item_offset xs = map item_offset ys" and "i < length xs"
  shows "contentWindow d xs i = contentWindow d ys i"
proof -
  have len: "length xs = length ys" using assms(1) by (metis length_map)
  have nth: "\<And>j. j < length xs \<Longrightarrow> item_offset (xs ! j) = item_offset (ys ! j)"
    using assms(1) len by (metis nth_map)
  show ?thesis
    using nth [of i] nth [of "i + 1"] len assms(2) by (auto simp: contentWindow_def)
qed

lemma map_sort_key: "map f (sort_key f xs) = sort (map f xs)"
proof -
  have "mset (map f (sort_key f xs)) = mset (map f xs)" by simp
  then show ?thesis
    using properties_for_sort [of "map f (sort_key f xs)" "map f xs"] by simp
qed

lemma sorted_offsets_determined:
  assumes "mset xs = mset ys"
  shows "map f (sort_key f xs) = map f (sort_key f ys)"
proof -
  have "mset (map f xs) = mset (map f ys)"
    using assms by (metis mset_map)
  then have "sort (map f xs) = sort (map f ys)"
    by (metis properties_for_sort sorted_sort mset_sort)
  then show ?thesis by (simp add: map_sort_key)
qed

section \<open>Unfolding the two passes\<close>

lemma headStep_unfold:
  "headStep buildFlatBreakdown d (hp, its, cur) (p, i) =
     (hp @ [headPart d p i cur], its @ headItem d p i cur, cur + slotChars p)"
  by (simp add: headStep_def headPart_def headItem_def slotChars_def Let_def split: option.splits)

lemma foldl_headStep_unfold:
  "foldl (headStep buildFlatBreakdown d) (hp, its, cur) (zip ps [i..<i + length ps]) =
     (hp @ headPartsFrom d cur i ps, its @ itemsFrom d cur i ps,
      cur + sum_list (map slotChars ps))"
proof (induction ps arbitrary: hp its cur i)
  case Nil
  show ?case by simp
next
  case (Cons p ps)
  have "[i..<i + length (p # ps)] = i # [Suc i..<Suc i + length ps]"
    by (simp add: upt_rec)
  then show ?case
    using Cons.IH [of "hp @ [headPart d p i cur]" "its @ headItem d p i cur" "cur + slotChars p" "Suc i"]
    by (simp add: headStep_unfold add.assoc)
qed

lemma recordedItems_itemsFrom: "recordedItems ps d = itemsFrom d 0 0 ps"
  using foldl_headStep_unfold [of d "[]" "[]" 0 ps 0] by (simp add: recordedItems_def)

lemma buildFlatBreakdown_unfold:
  "buildFlatBreakdown ps d =
     (headPartsFrom d 0 0 ps,
      map (tailPart d (sortByOffset (itemsFrom d 0 0 ps)))
        [0..<length (sortByOffset (itemsFrom d 0 0 ps))])"
  using foldl_headStep_unfold [of d "[]" "[]" 0 ps 0]
  by (simp add: buildFlatBreakdown.simps Let_def tailPart_def contentWindow_def)


lemma hexDigitValue_simps:
  "hexDigitValue CHR ''0'' = Some 0"
  "hexDigitValue CHR ''1'' = Some 1"
  "hexDigitValue CHR ''2'' = Some 2"
  "hexDigitValue CHR ''3'' = Some 3"
  "hexDigitValue CHR ''4'' = Some 4"
  "hexDigitValue CHR ''5'' = Some 5"
  "hexDigitValue CHR ''6'' = Some 6"
  "hexDigitValue CHR ''7'' = Some 7"
  "hexDigitValue CHR ''8'' = Some 8"
  "hexDigitValue CHR ''9'' = Some 9"
  "hexDigitValue CHR ''a'' = Some 10"
  "hexDigitValue CHR ''b'' = Some 11"
  "hexDigitValue CHR ''c'' = Some 12"
  "hexDigitValue CHR ''d'' = Some 13"
  "hexDigitValue CHR ''e'' = Some 14"
  "hexDigitValue CHR ''f'' = Some 15"
  "hexDigitValue CHR ''A'' = Some 10"
  "hexDigitValue CHR ''B'' = Some 11"
  "hexDigitValue CHR ''C'' = Some 12"
  "hexDigitValue CHR ''D'' = Some 13"
  "hexDigitValue CHR ''E'' = Some 14"
  "hexDigitValue CHR ''F'' = Some 15"
  by (simp_all add: hexDigitValue_def)

lemma isHexDigit_simps:
  "isHexDigit CHR ''0''"
  "isHexDigit CHR ''1''"
  "isHexDigit CHR ''2''"
  "isHexDigit CHR ''3''"
  "isHexDigit CHR ''4''"
  "isHexDigit CHR ''5''"
  "isHexDigit CHR ''6''"
  "isHexDigit CHR ''7''"
  "isHexDigit CHR ''8''"
  "isHexDigit CHR ''9''"
  "isHexDigit CHR ''a''"
  "isHexDigit CHR ''b''"
  "isHexDigit CHR ''c''"
  "isHexDigit CHR ''d''"
  "isHexDigit CHR ''e''"
  "isHexDigit CHR ''f''"
  "isHexDigit CHR ''A''"
  "isHexDigit CHR ''B''"
  "isHexDigit CHR ''C''"
  "isHexDigit CHR ''D''"
  "isHexDigit CHR ''E''"
  "isHexDigit CHR ''F''"
  by (simp_all add: isHexDigit_def hexDigitValue_simps)

lemma isHexDigit_not_space: "isHexDigit c \<Longrightarrow> \<not> isWhiteSpace c"
  by (auto simp: isHexDigit_def hexDigitValue_def isWhiteSpace_def Let_def split: if_splits)

lemma isHexDigit_not_sign:
  "isHexDigit c \<Longrightarrow> c \<noteq> CHR ''-'' \<and> c \<noteq> CHR ''+'' \<and> c \<noteq> CHR ''x'' \<and> c \<noteq> CHR ''X''"
  by (auto simp: isHexDigit_def hexDigitValue_def Let_def)

lemma parseInt16_hex:
  assumes "s \<noteq> []" and "list_all isHexDigit s"
  shows "parseInt16 s = Some (int (roundToDouble (hexValue s)))"
proof -
  obtain c cs where s: "s = c # cs" using assms(1) by (cases s) auto
  have c: "isHexDigit c" and cs: "list_all isHexDigit cs" using assms(2) s by simp_all
  have tw: "takeWhile isHexDigit s = s"
    using assms(2) by (simp add: takeWhile_eq_all_conv list_all_iff)
  have nx: "take 2 s \<noteq> ''0x'' \<and> take 2 s \<noteq> ''0X''"
  proof (cases cs)
    case Nil
    then show ?thesis by (simp add: s)
  next
    case (Cons e es)
    then have "isHexDigit e" using cs by simp
    then show ?thesis using isHexDigit_not_sign [of e] by (auto simp: s Cons)
  qed
  have d: "dropWhile isWhiteSpace s = s"
    using isHexDigit_not_space [OF c] by (simp add: s)
  have sg: "take 1 s \<noteq> ''-''" "take 1 s \<noteq> ''+''"
    using isHexDigit_not_sign [OF c] by (simp_all add: s)
  show ?thesis
  proof -
    have "parseInt16 s =
        (if takeWhile isHexDigit s = [] then None
         else Some (1 * int (roundToDouble (hexValue (takeWhile isHexDigit s)))))"
      unfolding parseInt16_def Let_def d using sg nx by simp
    then show ?thesis unfolding tw using assms(1) by simp
  qed
qed

lemma substring_nonneg:
  "0 \<le> a \<Longrightarrow> a \<le> b \<Longrightarrow> substring s a b = take (nat b - nat a) (drop (nat a) s)"
  by (auto simp: substring_def clampIndex_def Let_def min_def max_def)

lemma padTo32Bytes_full: "64 \<le> length h \<Longrightarrow> padTo32Bytes h t = h"
  by (simp add: padTo32Bytes_def padStart_def padEnd_def)

lemma exampleSwappedTails_items:
  "recordedItems exampleTwoStrings exampleSwappedTails =
     [\<lparr>item_param = AbiParameter ''string'' (Some ''a'') None, item_name = ''a'', item_offset = Some 96\<rparr>,
      \<lparr>item_param = AbiParameter ''string'' (Some ''b'') None, item_name = ''b'', item_offset = Some 64\<rparr>]"
  by (simp add: recordedItems_itemsFrom exampleTwoStrings_def exampleSwappedTails_def
      headItem_def slotChars_def endsWith_def substring_nonneg parseInt16_hex paramNameOf_def
      isHexDigit_simps hexValue_def hexDigitValue_simps)

lemma mset_insertItem: "mset (insertItem x ys) = add_mset x (mset ys)"
  by (induction ys) auto

lemma mset_sortByOffset: "mset (sortByOffset items) = mset items"
  unfolding sortByOffset_def by (induction items) (simp_all add: mset_insertItem)

lemma headPartsFrom_length: "length (headPartsFrom d cur i ps) = length ps"
  by (induction ps arbitrary: cur i) simp_all

lemma headPartsFrom_nth:
  "k < length ps \<Longrightarrow>
   headPartsFrom d cur i ps ! k =
     headPart d (ps ! k) (i + k) (cur + sum_list (map slotChars (take k ps)))"
proof (induction ps arbitrary: cur i k)
  case Nil
  then show ?case by simp
next
  case (Cons p ps)
  show ?case
  proof (cases k)
    case 0
    then show ?thesis by simp
  next
    case (Suc j)
    then have "j < length ps" using Cons.prems by simp
    then show ?thesis
      using Cons.IH [of j "cur + slotChars p" "Suc i"] by (simp add: Suc add.assoc)
  qed
qed

lemma itemsFrom_params: "map item_param (itemsFrom d cur i ps) = filter isDynamic ps"
  by (induction ps arbitrary: cur i) (simp_all add: headItem_def)

definition headCursorAt :: "AbiParameter list \<Rightarrow> nat \<Rightarrow> int" where
  \<comment> \<open>\<open>headCursor\<close> when the first pass reaches the parameter of index \<open>i\<close>\<close>
  "headCursorAt params i = sum_list (map slotChars (take i params))"

text \<open>
  C10. At every level, \<open>buildFlatBreakdown\<close> returns exactly one head part per parameter
  of its list, named after that parameter, and exactly one tail part per dynamic
  parameter, named after a recorded item; the recorded items are the dynamic parameters
  in order and the sort permutes them. The head part of a static tuple carries as
  components the head and tail parts of the breakdown of its components on its own slots;
  every other head part has no components. A tail part carries the parse of its window.
\<close>

theorem buildFlatBreakdown_parts_per_parameter:
  "length (fst (buildFlatBreakdown params d)) = length params \<and>
   length (snd (buildFlatBreakdown params d)) = length (filter isDynamic params) \<and>
   map item_param (recordedItems params d) = filter isDynamic params \<and>
   mset (sortByOffset (recordedItems params d)) = mset (recordedItems params d) \<and>
   (\<forall>i < length params.
      part_name (fst (buildFlatBreakdown params d) ! i) =
        paramNameOf (params ! i) i @ '' ('' @ abi_type (params ! i) @ '')'' \<and>
      part_components (fst (buildFlatBreakdown params d) ! i) =
        (if isDynamic (params ! i) then None
         else case (if abi_type (params ! i) = ''tuple'' then abi_components (params ! i) else None) of
                Some comps \<Rightarrow>
                  Some (fst (buildFlatBreakdown comps
                               (substring d (headCursorAt params i)
                                  (headCursorAt params i + int (length comps) * 64))) @
                        snd (buildFlatBreakdown comps
                               (substring d (headCursorAt params i)
                                  (headCursorAt params i + int (length comps) * 64))))
              | None \<Rightarrow> None)) \<and>
   (\<forall>j < length (filter isDynamic params).
      part_name (snd (buildFlatBreakdown params d) ! j) =
        ''Tail for '' @ item_name (sortByOffset (recordedItems params d) ! j) \<and>
      part_type (snd (buildFlatBreakdown params d) ! j) =
        abi_type (item_param (sortByOffset (recordedItems params d) ! j)) \<and>
      part_components (snd (buildFlatBreakdown params d) ! j) =
        Some (parseDynamicData (item_param (sortByOffset (recordedItems params d) ! j))
                (contentWindow d (sortByOffset (recordedItems params d)) j)))"
proof -
  have ip: "map item_param (recordedItems params d) = filter isDynamic params"
    by (simp add: recordedItems_itemsFrom itemsFrom_params)
  then have li: "length (recordedItems params d) = length (filter isDynamic params)"
    by (metis length_map)
  have l1: "length (fst (buildFlatBreakdown params d)) = length params"
    by (simp add: buildFlatBreakdown_unfold headPartsFrom_length)
  have l2: "length (snd (buildFlatBreakdown params d)) = length (filter isDynamic params)"
    using li by (simp add: buildFlatBreakdown_unfold length_sortByOffset recordedItems_itemsFrom)
  have hp: "fst (buildFlatBreakdown params d) ! i =
      headPart d (params ! i) i (headCursorAt params i)" if "i < length params" for i
    using headPartsFrom_nth [OF that, of d 0 0]
    by (simp add: buildFlatBreakdown_unfold headCursorAt_def)
  have h: "\<forall>i < length params.
      part_name (fst (buildFlatBreakdown params d) ! i) =
        paramNameOf (params ! i) i @ '' ('' @ abi_type (params ! i) @ '')'' \<and>
      part_components (fst (buildFlatBreakdown params d) ! i) =
        (if isDynamic (params ! i) then None
         else case (if abi_type (params ! i) = ''tuple'' then abi_components (params ! i) else None) of
                Some comps \<Rightarrow>
                  Some (fst (buildFlatBreakdown comps
                               (substring d (headCursorAt params i)
                                  (headCursorAt params i + int (length comps) * 64))) @
                        snd (buildFlatBreakdown comps
                               (substring d (headCursorAt params i)
                                  (headCursorAt params i + int (length comps) * 64))))
              | None \<Rightarrow> None)"
    by (simp add: hp headPart_def split: option.splits)
  have tp: "snd (buildFlatBreakdown params d) ! j =
      tailPart d (sortByOffset (recordedItems params d)) j"
    if "j < length (filter isDynamic params)" for j
    using that li
    by (simp add: buildFlatBreakdown_unfold length_sortByOffset recordedItems_itemsFrom)
  have t: "\<forall>j < length (filter isDynamic params).
      part_name (snd (buildFlatBreakdown params d) ! j) =
        ''Tail for '' @ item_name (sortByOffset (recordedItems params d) ! j) \<and>
      part_type (snd (buildFlatBreakdown params d) ! j) =
        abi_type (item_param (sortByOffset (recordedItems params d) ! j)) \<and>
      part_components (snd (buildFlatBreakdown params d) ! j) =
        Some (parseDynamicData (item_param (sortByOffset (recordedItems params d) ! j))
                (contentWindow d (sortByOffset (recordedItems params d)) j))"
    by (simp add: tp tailPart_def)
  show ?thesis
    using l1 l2 ip mset_sortByOffset h t by blast
qed


definition examplePairAndString :: "AbiParameter list" where
  "examplePairAndString =
     [AbiParameter ''tuple'' (Some ''t'')
        (Some [AbiParameter ''uint256'' (Some ''x'') None,
               AbiParameter ''uint256'' (Some ''y'') None]),
      AbiParameter ''string'' (Some ''s'') None]"

definition examplePairAndStringData :: string where
  "examplePairAndStringData = ''00000000000000000000000000000000000000000000000000000000000000010000000000000000000000000000000000000000000000000000000000000002000000000000000000000000000000000000000000000000000000000000006000000000000000000000000000000000000000000000000000000000000000026869000000000000000000000000000000000000000000000000000000000000''"

theorem buildFlatBreakdown_parts_per_parameter_witness:
  "length (fst (buildFlatBreakdown examplePairAndString examplePairAndStringData)) = 2 \<and>
   length (snd (buildFlatBreakdown examplePairAndString examplePairAndStringData)) = 1 \<and>
   part_name (fst (buildFlatBreakdown examplePairAndString examplePairAndStringData) ! 0) =
     ''t (tuple)'' \<and>
   part_components (fst (buildFlatBreakdown examplePairAndString examplePairAndStringData) ! 0) =
     Some [CalldataPart ''x (uint256)'' ''bytes32''
             ''0x0000000000000000000000000000000000000000000000000000000000000001'' None None,
           CalldataPart ''y (uint256)'' ''bytes32''
             ''0x0000000000000000000000000000000000000000000000000000000000000002'' None None] \<and>
   part_components (fst (buildFlatBreakdown examplePairAndString examplePairAndStringData) ! 1) =
     None \<and>
   part_name (snd (buildFlatBreakdown examplePairAndString examplePairAndStringData) ! 0) =
     ''Tail for s''"
proof -
  have len: "length examplePairAndString = 2"
    by (simp add: examplePairAndString_def)
  have dyn: "filter isDynamic examplePairAndString = [AbiParameter ''string'' (Some ''s'') None]"
    by (simp add: examplePairAndString_def endsWith_def)
  have p0: "examplePairAndString ! 0 =
      AbiParameter ''tuple'' (Some ''t'')
        (Some [AbiParameter ''uint256'' (Some ''x'') None,
               AbiParameter ''uint256'' (Some ''y'') None])"
    and p1: "examplePairAndString ! 1 = AbiParameter ''string'' (Some ''s'') None"
    and p1': "examplePairAndString ! Suc 0 = AbiParameter ''string'' (Some ''s'') None"
    by (simp_all add: examplePairAndString_def)
  have nested: "buildFlatBreakdown
        [AbiParameter ''uint256'' (Some ''x'') None, AbiParameter ''uint256'' (Some ''y'') None]
        (substring examplePairAndStringData (headCursorAt examplePairAndString 0)
           (headCursorAt examplePairAndString 0 + int 2 * 64)) =
      ([CalldataPart ''x (uint256)'' ''bytes32''
          ''0x0000000000000000000000000000000000000000000000000000000000000001'' None None,
        CalldataPart ''y (uint256)'' ''bytes32''
          ''0x0000000000000000000000000000000000000000000000000000000000000002'' None None], [])"
    by (simp add: headCursorAt_def examplePairAndStringData_def substring_nonneg
        buildFlatBreakdown_unfold headPart_def headItem_def slotChars_def endsWith_def
        paramNameOf_def padTo32Bytes_full sortByOffset_def)
  have items: "recordedItems examplePairAndString examplePairAndStringData =
      [\<lparr>item_param = AbiParameter ''string'' (Some ''s'') None, item_name = ''s'',
         item_offset = Some 96\<rparr>]"
    by (simp add: recordedItems_itemsFrom examplePairAndString_def examplePairAndStringData_def
        headItem_def slotChars_def endsWith_def substring_nonneg parseInt16_hex paramNameOf_def
        isHexDigit_simps hexValue_def hexDigitValue_simps)
  have i0: "0 < length examplePairAndString" and i1: "1 < length examplePairAndString"
    using len by simp_all
  have j0: "0 < length (filter isDynamic examplePairAndString)"
    by (simp add: dyn)
  note inst = buildFlatBreakdown_parts_per_parameter [of examplePairAndString examplePairAndStringData]
  note heads = inst [THEN conjunct2, THEN conjunct2, THEN conjunct2, THEN conjunct2,
      THEN conjunct1, rule_format]
  note tails = inst [THEN conjunct2, THEN conjunct2, THEN conjunct2, THEN conjunct2,
      THEN conjunct2, rule_format]
  have a: "length (fst (buildFlatBreakdown examplePairAndString examplePairAndStringData)) = 2"
    using inst len by simp
  have b: "length (snd (buildFlatBreakdown examplePairAndString examplePairAndStringData)) = 1"
    using inst dyn by simp
  have c: "part_name (fst (buildFlatBreakdown examplePairAndString examplePairAndStringData) ! 0) =
      ''t (tuple)''"
    using heads [OF i0] by (simp add: p0 paramNameOf_def)
  have e: "part_components (fst (buildFlatBreakdown examplePairAndString examplePairAndStringData) ! 0) =
      Some [CalldataPart ''x (uint256)'' ''bytes32''
             ''0x0000000000000000000000000000000000000000000000000000000000000001'' None None,
           CalldataPart ''y (uint256)'' ''bytes32''
             ''0x0000000000000000000000000000000000000000000000000000000000000002'' None None]"
  proof -
    have "part_components (fst (buildFlatBreakdown examplePairAndString examplePairAndStringData) ! 0) =
        Some (fst (buildFlatBreakdown
                [AbiParameter ''uint256'' (Some ''x'') None, AbiParameter ''uint256'' (Some ''y'') None]
                (substring examplePairAndStringData (headCursorAt examplePairAndString 0)
                   (headCursorAt examplePairAndString 0 + int 2 * 64))) @
              snd (buildFlatBreakdown
                [AbiParameter ''uint256'' (Some ''x'') None, AbiParameter ''uint256'' (Some ''y'') None]
                (substring examplePairAndStringData (headCursorAt examplePairAndString 0)
                   (headCursorAt examplePairAndString 0 + int 2 * 64))))"
      using heads [OF i0] by (simp add: p0 endsWith_def)
    then show ?thesis unfolding nested by simp
  qed
  have f: "part_components (fst (buildFlatBreakdown examplePairAndString examplePairAndStringData) ! 1) =
      None"
    using heads [OF i1] by (simp add: p1 p1')
  have g: "part_name (snd (buildFlatBreakdown examplePairAndString examplePairAndStringData) ! 0) =
      ''Tail for s''"
    using tails [OF j0] by (simp add: items sortByOffset_def)
  show ?thesis using a b c e f g by simp
qed


text \<open>
  C5. When every recorded offset is a number, the items are parsed in ascending order of
  offset (the sort permutes them), the window of each runs from its own offset to the
  offset of the next one, the last to the end of the data; so consecutive windows are
  adjacent and do not overlap, and the windows depend on the recorded items only as a
  multiset, not on the order in which they were declared.
\<close>

theorem tail_windows_sorted_contiguous:
  assumes "\<forall>it \<in> set (recordedItems params d). item_offset it \<noteq> None"
  shows "let dynamicItems = sortByOffset (recordedItems params d) in
    sorted (map (\<lambda>a. the (item_offset a)) dynamicItems) \<and>
    mset dynamicItems = mset (recordedItems params d) \<and>
    map part_components (snd (buildFlatBreakdown params d)) =
      map (\<lambda>i. Some (parseDynamicData (item_param (dynamicItems ! i))
                        (contentWindow d dynamicItems i)))
        [0..<length dynamicItems] \<and>
    (\<forall>i < length dynamicItems.
       windowBound d dynamicItems i \<le> windowBound d dynamicItems (Suc i) \<and>
       contentWindow d dynamicItems i =
         take (windowBound d dynamicItems (Suc i) - windowBound d dynamicItems i)
           (drop (windowBound d dynamicItems i) d)) \<and>
    windowBound d dynamicItems (length dynamicItems) = length d \<and>
    (\<forall>items'. mset items' = mset (recordedItems params d) \<longrightarrow>
       map (contentWindow d (sortByOffset items')) [0..<length items'] =
       map (contentWindow d dynamicItems) [0..<length dynamicItems])"
proof -
  define items where "items = recordedItems params d"
  define srt where "srt = sortByOffset items"
  have srt: "srt = sort_key (\<lambda>a. the (item_offset a)) items"
    using assms by (simp add: srt_def items_def sortByOffset_sort_key)
  have s1: "sorted (map (\<lambda>a. the (item_offset a)) srt)"
    by (simp add: srt)
  have s2: "mset srt = mset items"
    by (simp add: srt)
  have nn: "\<forall>y \<in> set srt. item_offset y \<noteq> None"
    using assms by (simp add: srt items_def)
  have s3: "map part_components (snd (buildFlatBreakdown params d)) =
      map (\<lambda>i. Some (parseDynamicData (item_param (srt ! i)) (contentWindow d srt i)))
        [0..<length srt]"
    unfolding srt_def items_def by (rule tailParts_components)
  have s4: "\<forall>i < length srt.
       windowBound d srt i \<le> windowBound d srt (Suc i) \<and>
       contentWindow d srt i =
         take (windowBound d srt (Suc i) - windowBound d srt i) (drop (windowBound d srt i) d)"
    using windowBound_mono [OF s1 nn] contentWindow_bounds by blast
  have s5: "windowBound d srt (length srt) = length d"
    by (simp add: windowBound_def)
  have s6: "map (contentWindow d (sortByOffset items')) [0..<length items'] =
       map (contentWindow d srt) [0..<length srt]" if m: "mset items' = mset items" for items'
  proof -
    have nn': "\<forall>y \<in> set items'. item_offset y \<noteq> None"
      using assms m by (metis items_def mset_eq_setD)
    have srt': "sortByOffset items' = sort_key (\<lambda>a. the (item_offset a)) items'"
      using nn' by (rule sortByOffset_sort_key)
    have len: "length items' = length srt"
      using m by (metis s2 size_mset)
    have keys: "map (\<lambda>a. the (item_offset a)) (sortByOffset items') = map (\<lambda>a. the (item_offset a)) srt"
      unfolding srt' srt using m by (rule sorted_offsets_determined)
    have nn'': "\<forall>y \<in> set (sortByOffset items'). item_offset y \<noteq> None"
      using nn' by (simp add: srt')
    have offs: "map item_offset (sortByOffset items') = map item_offset srt"
    proof (rule nth_equalityI)
      show "length (map item_offset (sortByOffset items')) = length (map item_offset srt)"
        using len by (simp add: length_sortByOffset)
    next
      fix i assume i: "i < length (map item_offset (sortByOffset items'))"
      then have i1: "i < length (sortByOffset items')" and i2: "i < length srt"
        using len by (simp_all add: length_sortByOffset)
      have "the (item_offset (sortByOffset items' ! i)) = the (item_offset (srt ! i))"
        using keys i1 i2 by (metis (no_types, lifting) nth_map)
      moreover have "item_offset (sortByOffset items' ! i) \<noteq> None" "item_offset (srt ! i) \<noteq> None"
        using nn'' nn i1 i2 by (simp_all)
      ultimately show "map item_offset (sortByOffset items') ! i = map item_offset srt ! i"
        using i1 i2 by (auto)
    qed
    show ?thesis
      using contentWindow_offsets [OF offs] len
      by (auto simp: length_sortByOffset)
  qed
  show ?thesis
    unfolding Let_def
    using s1 s2 s3 s4 s5 s6 unfolding srt_def items_def by blast
qed


theorem tail_windows_sorted_contiguous_witness:
  "map item_offset (recordedItems exampleTwoStrings exampleSwappedTails) = [Some 96, Some 64] \<and>
   map item_offset (sortByOffset (recordedItems exampleTwoStrings exampleSwappedTails)) =
     [Some 64, Some 96] \<and>
   sorted (map (\<lambda>a. the (item_offset a))
             (sortByOffset (recordedItems exampleTwoStrings exampleSwappedTails))) \<and>
   contentWindow exampleSwappedTails
       (sortByOffset (recordedItems exampleTwoStrings exampleSwappedTails)) 0 =
     take (windowBound exampleSwappedTails
             (sortByOffset (recordedItems exampleTwoStrings exampleSwappedTails)) (Suc 0) -
           windowBound exampleSwappedTails
             (sortByOffset (recordedItems exampleTwoStrings exampleSwappedTails)) 0)
       (drop (windowBound exampleSwappedTails
                (sortByOffset (recordedItems exampleTwoStrings exampleSwappedTails)) 0)
          exampleSwappedTails) \<and>
   windowBound exampleSwappedTails
       (sortByOffset (recordedItems exampleTwoStrings exampleSwappedTails)) 0
     \<le> windowBound exampleSwappedTails
         (sortByOffset (recordedItems exampleTwoStrings exampleSwappedTails)) (Suc 0)"
proof -
  have h: "\<forall>it \<in> set (recordedItems exampleTwoStrings exampleSwappedTails). item_offset it \<noteq> None"
    by (simp add: exampleSwappedTails_items)
  have o: "map item_offset (recordedItems exampleTwoStrings exampleSwappedTails) = [Some 96, Some 64]"
    by (simp add: exampleSwappedTails_items)
  have s: "map item_offset (sortByOffset (recordedItems exampleTwoStrings exampleSwappedTails)) =
      [Some 64, Some 96]"
    by (simp add: exampleSwappedTails_items sortByOffset_def compareOffset_def)
  have l: "0 < length (sortByOffset (recordedItems exampleTwoStrings exampleSwappedTails))"
    by (simp add: exampleSwappedTails_items length_sortByOffset)
  show ?thesis
    using l o s tail_windows_sorted_contiguous [OF h] unfolding Let_def by blast
qed

section \<open>Offsets outside the window, and arrays\<close>

definition exampleOneString :: "AbiParameter list" where
  "exampleOneString = [AbiParameter ''string'' (Some ''s'') None]"

definition exampleFarOffset :: string where
  "exampleFarOffset = ''000000000000000000000000000000000000000000000000000000000000010000000000000000000000000000000000000000000000000000000000000000026869000000000000000000000000000000000000000000000000000000000000''"

lemma showNat_numeral:
  "showNat (numeral k) =
     (if (numeral k :: nat) < 10 then [digitChar (numeral k)]
      else showNat (numeral k div 10) @ [digitChar (numeral k mod 10)])"
  by (rule showNat.simps)


lemma digitChar_simps:
  "digitChar 0 = CHR ''0''" "digitChar 1 = CHR ''1''" "digitChar 2 = CHR ''2''"
  "digitChar 3 = CHR ''3''" "digitChar 4 = CHR ''4''" "digitChar 5 = CHR ''5''"
  "digitChar 6 = CHR ''6''" "digitChar 7 = CHR ''7''" "digitChar 8 = CHR ''8''"
  "digitChar 9 = CHR ''9''" "digitChar (Suc 0) = CHR ''1''"
  by code_simp+

lemma substring_empty: "substring [] a b = []"
  by (simp add: substring_def)

lemma parseInt16_empty: "parseInt16 [] = None"
  by (simp add: parseInt16_def)

lemma exampleFarOffset_items:
  "recordedItems exampleOneString exampleFarOffset =
     [\<lparr>item_param = AbiParameter ''string'' (Some ''s'') None, item_name = ''s'', item_offset = Some 256\<rparr>]"
  by (simp add: recordedItems_itemsFrom exampleOneString_def exampleFarOffset_def
      headItem_def slotChars_def endsWith_def substring_nonneg parseInt16_hex paramNameOf_def
      isHexDigit_simps hexValue_def hexDigitValue_simps)

text \<open>
  C8 as stated fails. The only parameter is a string whose offset word says byte 256,
  in a window of 96 bytes: the decomposer signals nothing and returns a head part and a
  tail part, the latter parsed from an empty window.
\<close>

theorem corrupt_offset_counterexample:
  "recordedItems exampleOneString exampleFarOffset =
     [\<lparr>item_param = AbiParameter ''string'' (Some ''s'') None, item_name = ''s'', item_offset = Some 256\<rparr>] \<and>
   length exampleFarOffset = 192 \<and>
   buildFlatBreakdown exampleOneString exampleFarOffset =
     ([CalldataPart ''s (string)'' ''bytes32''
         ''0x0000000000000000000000000000000000000000000000000000000000000100''
         (Some ''Offset to data at byte 256'') None],
      [CalldataPart ''Tail for s'' ''string'' ''(see components)''
         (Some ''Data located at byte 256'')
         (Some [CalldataPart ''length'' ''uint256'' ''0x'' (Some ''NaN'') None,
                CalldataPart ''value'' ''utf8'' ''0x'' (Some ''Original data: 0x'') None])])"
proof -
  have items: "itemsFrom exampleFarOffset 0 0 exampleOneString =
     [\<lparr>item_param = AbiParameter ''string'' (Some ''s'') None, item_name = ''s'', item_offset = Some 256\<rparr>]"
    using exampleFarOffset_items by (simp add: recordedItems_itemsFrom)
  have len: "length exampleFarOffset = 192"
    by (simp add: exampleFarOffset_def)
  have win: "contentWindow exampleFarOffset
      [\<lparr>item_param = AbiParameter ''string'' (Some ''s'') None, item_name = ''s'', item_offset = Some 256\<rparr>] 0 = []"
    by (simp add: contentWindow_def substring_def clampIndex_def times2_def toIntegerOrInfinity_def len)
  have hd: "headPartsFrom exampleFarOffset 0 0 exampleOneString =
     [CalldataPart ''s (string)'' ''bytes32''
         ''0x0000000000000000000000000000000000000000000000000000000000000100''
         (Some ''Offset to data at byte 256'') None]"
    by (simp add: exampleOneString_def exampleFarOffset_def headPart_def endsWith_def
        substring_nonneg parseInt16_hex paramNameOf_def isHexDigit_simps hexValue_def
        hexDigitValue_simps showNumber_def showInt_def showNat_numeral digitChar_simps)
  have pd: "parseDynamicData (AbiParameter ''string'' (Some ''s'') None) [] =
     [CalldataPart ''length'' ''uint256'' ''0x'' (Some ''NaN'') None,
      CalldataPart ''value'' ''utf8'' ''0x'' (Some ''Original data: 0x'') None]"
    by (simp add: parseDynamicData.simps endsWith_def substring_empty parseInt16_empty
        showNumber_def padEnd_def toIntegerOrInfinity_def)
  show ?thesis
    unfolding buildFlatBreakdown_unfold items hd
    by (simp add: exampleFarOffset_items len sortByOffset_def tailPart_def win pd showNumber_def
        showInt_def showNat_numeral digitChar_simps)
qed


lemma clampIndex_beyond: "int (length s) \<le> a \<Longrightarrow> clampIndex a s = length s"
  by (simp add: clampIndex_def)

definition exampleDecreasingOffsets :: string where
  "exampleDecreasingOffsets = ''0000000000000000000000000000000000000000000000000000000000000100000000000000000000000000000000000000000000000000000000000000004000000000000000000000000000000000000000000000000000000000000000016100000000000000000000000000000000000000000000000000000000000000''"

lemma exampleDecreasingOffsets_items:
  "recordedItems exampleTwoStrings exampleDecreasingOffsets =
     [\<lparr>item_param = AbiParameter ''string'' (Some ''a'') None, item_name = ''a'', item_offset = Some 256\<rparr>,
      \<lparr>item_param = AbiParameter ''string'' (Some ''b'') None, item_name = ''b'', item_offset = Some 64\<rparr>]"
  by (simp add: recordedItems_itemsFrom exampleTwoStrings_def exampleDecreasingOffsets_def
      headItem_def slotChars_def endsWith_def substring_nonneg parseInt16_hex paramNameOf_def
      isHexDigit_simps hexValue_def hexDigitValue_simps)

text \<open>
  C8, amended. The decomposer has no error result: whatever the offsets are, there is one
  tail part per dynamic parameter. When every recorded offset is a number, the sort puts
  the items in ascending order of offset, so decreasing offsets are reordered and not
  rejected; and an item whose offset lies at or beyond the end of the window has an empty
  content window, and its tail part carries the parse of the empty string.
\<close>

theorem offsets_are_never_rejected:
  "length (snd (buildFlatBreakdown params d)) = length (filter isDynamic params) \<and>
   ((\<forall>it \<in> set (recordedItems params d). item_offset it \<noteq> None) \<longrightarrow>
      sorted (map (\<lambda>a. the (item_offset a)) (sortByOffset (recordedItems params d))) \<and>
      mset (sortByOffset (recordedItems params d)) = mset (recordedItems params d) \<and>
      (\<forall>i < length (filter isDynamic params).
         int (length d) \<le> 2 * the (item_offset (sortByOffset (recordedItems params d) ! i)) \<longrightarrow>
         contentWindow d (sortByOffset (recordedItems params d)) i = [] \<and>
         part_components (snd (buildFlatBreakdown params d) ! i) =
           Some (parseDynamicData (item_param (sortByOffset (recordedItems params d) ! i)) [])))"
proof -
  define srt where "srt = sortByOffset (recordedItems params d)"
  have li: "length (recordedItems params d) = length (filter isDynamic params)"
    using itemsFrom_params [of d 0 0 params] by (metis length_map recordedItems_itemsFrom)
  have len: "length srt = length (filter isDynamic params)"
    by (simp add: srt_def length_sortByOffset li)
  have parts: "snd (buildFlatBreakdown params d) = map (tailPart d srt) [0..<length srt]"
    by (simp add: buildFlatBreakdown_unfold srt_def recordedItems_itemsFrom)
  have l2: "length (snd (buildFlatBreakdown params d)) = length (filter isDynamic params)"
    by (simp add: parts len)
  have rest: "sorted (map (\<lambda>a. the (item_offset a)) srt) \<and>
      mset srt = mset (recordedItems params d) \<and>
      (\<forall>i < length (filter isDynamic params).
         int (length d) \<le> 2 * the (item_offset (srt ! i)) \<longrightarrow>
         contentWindow d srt i = [] \<and>
         part_components (snd (buildFlatBreakdown params d) ! i) =
           Some (parseDynamicData (item_param (srt ! i)) []))"
    if nn0: "\<forall>it \<in> set (recordedItems params d). item_offset it \<noteq> None"
  proof -
    have srt: "srt = sort_key (\<lambda>a. the (item_offset a)) (recordedItems params d)"
      using nn0 by (simp add: srt_def sortByOffset_sort_key)
    have s1: "sorted (map (\<lambda>a. the (item_offset a)) srt)"
      by (simp add: srt)
    have nn: "\<forall>y \<in> set srt. item_offset y \<noteq> None"
      using nn0 by (simp add: srt)
    have w: "contentWindow d srt i = [] \<and>
         part_components (snd (buildFlatBreakdown params d) ! i) =
           Some (parseDynamicData (item_param (srt ! i)) [])"
      if i: "i < length srt" and far: "int (length d) \<le> 2 * the (item_offset (srt ! i))" for i
    proof -
      obtain off where off: "item_offset (srt ! i) = Some off"
        using nn i by (metis nth_mem option.exhaust)
      have "int (length d) \<le> 2 * off" using far off by simp
      then have lo: "windowBound d srt i = length d"
        using i off by (simp add: windowBound_def times2_def toIntegerOrInfinity_def
            clampIndex_beyond mult.commute)
      have "windowBound d srt (Suc i) \<le> length d"
        by (simp add: windowBound_def clampIndex_le)
      then have win: "contentWindow d srt i = []"
        using contentWindow_bounds [OF windowBound_mono [OF s1 nn] i, of d] lo by simp
      have "part_components (snd (buildFlatBreakdown params d) ! i) =
          Some (parseDynamicData (item_param (srt ! i)) (contentWindow d srt i))"
        using i by (simp add: parts tailPart_def)
      then show ?thesis using win by simp
    qed
    show ?thesis
      using s1 w len by (simp add: srt_def mset_sortByOffset)
  qed
  show ?thesis
    using l2 rest unfolding srt_def by blast
qed

theorem offsets_are_never_rejected_witness:
  "map item_offset (recordedItems exampleTwoStrings exampleDecreasingOffsets) = [Some 256, Some 64] \<and>
   length exampleDecreasingOffsets = 256 \<and>
   length (snd (buildFlatBreakdown exampleTwoStrings exampleDecreasingOffsets)) = 2 \<and>
   map item_name (sortByOffset (recordedItems exampleTwoStrings exampleDecreasingOffsets)) =
     [''b'', ''a''] \<and>
   sorted (map (\<lambda>a. the (item_offset a))
             (sortByOffset (recordedItems exampleTwoStrings exampleDecreasingOffsets))) \<and>
   contentWindow exampleDecreasingOffsets
     (sortByOffset (recordedItems exampleTwoStrings exampleDecreasingOffsets)) 1 = [] \<and>
   part_components (snd (buildFlatBreakdown exampleTwoStrings exampleDecreasingOffsets) ! 1) =
     Some (parseDynamicData (AbiParameter ''string'' (Some ''a'') None) [])"
proof -
  have h: "\<forall>it \<in> set (recordedItems exampleTwoStrings exampleDecreasingOffsets). item_offset it \<noteq> None"
    by (simp add: exampleDecreasingOffsets_items)
  have len: "length exampleDecreasingOffsets = 256"
    by (simp add: exampleDecreasingOffsets_def)
  have srt: "sortByOffset (recordedItems exampleTwoStrings exampleDecreasingOffsets) =
     [\<lparr>item_param = AbiParameter ''string'' (Some ''b'') None, item_name = ''b'', item_offset = Some 64\<rparr>,
      \<lparr>item_param = AbiParameter ''string'' (Some ''a'') None, item_name = ''a'', item_offset = Some 256\<rparr>]"
    by (simp add: exampleDecreasingOffsets_items sortByOffset_def compareOffset_def)
  have dyn: "length (filter isDynamic exampleTwoStrings) = 2"
    by (simp add: exampleTwoStrings_def)
  have i: "1 < length (filter isDynamic exampleTwoStrings)"
    using dyn by simp
  have far: "int (length exampleDecreasingOffsets)
      \<le> 2 * the (item_offset (sortByOffset (recordedItems exampleTwoStrings exampleDecreasingOffsets) ! 1))"
    unfolding srt len by simp
  note inst = offsets_are_never_rejected [of exampleTwoStrings exampleDecreasingOffsets]
  note cond = inst [THEN conjunct2, THEN mp, OF h]
  note win = cond [THEN conjunct2, THEN conjunct2, rule_format, OF i far]
  have a: "length (snd (buildFlatBreakdown exampleTwoStrings exampleDecreasingOffsets)) = 2"
    using inst dyn by simp
  have b: "sorted (map (\<lambda>a. the (item_offset a))
             (sortByOffset (recordedItems exampleTwoStrings exampleDecreasingOffsets)))"
    using cond by blast
  have c: "contentWindow exampleDecreasingOffsets
     (sortByOffset (recordedItems exampleTwoStrings exampleDecreasingOffsets)) 1 = []"
    using win by blast
  have e: "part_components (snd (buildFlatBreakdown exampleTwoStrings exampleDecreasingOffsets) ! 1) =
     Some (parseDynamicData (AbiParameter ''string'' (Some ''a'') None) [])"
    using win unfolding srt by simp
  have o: "map item_offset (recordedItems exampleTwoStrings exampleDecreasingOffsets) =
      [Some 256, Some 64]"
    by (simp add: exampleDecreasingOffsets_items)
  have n: "map item_name (sortByOffset (recordedItems exampleTwoStrings exampleDecreasingOffsets)) =
      [''b'', ''a'']"
    by (simp add: srt)
  show ?thesis
    using o len a n b c e by blast
qed










section \<open>The entry point\<close>

text \<open>
  \<open>encodeFunctionCall\<close> calls three functions of the library \<open>viem\<close>, which is not part of
  the repository: \<open>parseAbiParameters\<close>, \<open>encodeAbiParameters\<close> and \<open>keccak256\<close>. They are
  arguments of the model; the first two may throw. \<open>stringToBytes\<close> is the identity on
  8-bit strings.
\<close>

datatype js_error = Error string | TypeError | SyntaxError

record EncodeResult =
  calldata :: string
  parts :: "CalldataPart list"

definition indexOf :: "string \<Rightarrow> char \<Rightarrow> int" where
  "indexOf s c = (if c \<in> set s then int (length (takeWhile (\<lambda>x. x \<noteq> c) s)) else - 1)"

definition lastIndexOf :: "string \<Rightarrow> char \<Rightarrow> int" where
  "lastIndexOf s c =
     (if c \<in> set s then int (length s) - 1 - int (length (takeWhile (\<lambda>x. x \<noteq> c) (rev s)))
      else - 1)"

definition funcNameMatch :: "string \<Rightarrow> string option" where
  \<comment> \<open>group 1 of \<open>fullSignature.match(/^(.*)\s*\(/)\<close>: the greedy \<open>.*\<close> stays on the first
      line and gives back characters until white space and a parenthesis follow\<close>
  "funcNameMatch s =
     (let line = takeWhile (\<lambda>c. \<not> isLineTerminator c) s in
      case filter (\<lambda>k. take 1 (dropWhile isWhiteSpace (drop k s)) = ''('')
             (rev [0..<Suc (length line)]) of
        [] \<Rightarrow> None
      | k # _ \<Rightarrow> Some (take k s))"

definition argsStrOf :: "string \<Rightarrow> string" where
  "argsStrOf fullSignature =
     substring fullSignature (indexOf fullSignature CHR ''('' + 1)
       (lastIndexOf fullSignature CHR '')'')"

function getCanonicalSignatureForParams :: "AbiParameter list \<Rightarrow> string" where
  "getCanonicalSignatureForParams params =
     join '',''
       (map (\<lambda>p. case abi_components p of
                    Some comps \<Rightarrow>
                      if abi_type p = ''tuple''
                      then ''('' @ getCanonicalSignatureForParams comps @ '')''
                      else if abi_type p = ''tuple[]''
                      then ''('' @ getCanonicalSignatureForParams comps @ '')[]''
                      else abi_type p
                  | None \<Rightarrow> abi_type p)
          params)"
  by pat_completeness auto
termination
proof (relation "measure (size_list size)", goal_cases)
  case 1
  show ?case by simp
next
  case (2 params p comps)
  then show ?case
    using size_components_less [of p comps] size_member_less [of p params] by simp
next
  case (3 params p comps)
  then show ?case
    using size_components_less [of p comps] size_member_less [of p params] by simp
qed

declare getCanonicalSignatureForParams.simps [simp del]

definition encodeFunctionCall ::
  "(string \<Rightarrow> js_error + AbiParameter list) \<Rightarrow>
   (AbiParameter list \<Rightarrow> 'v list \<Rightarrow> js_error + string) \<Rightarrow>
   (string \<Rightarrow> string) \<Rightarrow> string \<Rightarrow> 'v list \<Rightarrow> js_error + EncodeResult" where
  "encodeFunctionCall parseAbiParameters encodeAbiParameters keccak256 input argValues =
     (let fullSignature = trim input in
      case funcNameMatch fullSignature of
        None \<Rightarrow> Inl (Error ''Invalid function signature'')
      | Some funcName \<Rightarrow>
          (case parseAbiParameters (argsStrOf fullSignature) of
             Inl e \<Rightarrow> Inl e
           | Inr abiParams \<Rightarrow>
               let canonicalParams = getCanonicalSignatureForParams abiParams;
                   canonicalSignature = funcName @ ''('' @ canonicalParams @ '')'';
                   selector = take 10 (keccak256 canonicalSignature)
               in (case encodeAbiParameters abiParams argValues of
                     Inl e \<Rightarrow> Inl e
                   | Inr encoded \<Rightarrow>
                       let encodedParamsHex = drop 2 encoded;
                           finalCalldata = selector @ encodedParamsHex;
                           breakdown = buildFlatBreakdown abiParams encodedParamsHex
                       in Inr \<lparr>calldata = finalCalldata,
                               parts =
                                 CalldataPart ''Function Selector'' ''bytes4'' selector
                                   (Some (''keccak256('' @ [CHR 0x22] @ canonicalSignature @
                                          [CHR 0x22] @ '')''))
                                   None #
                                 fst breakdown @ snd breakdown\<rparr>)))"

fun eraseNames :: "AbiParameter \<Rightarrow> AbiParameter" where
  "eraseNames (AbiParameter t n cs) = AbiParameter t None (map_option (map eraseNames) cs)"

lemma set_trim: "set (trim s) \<subseteq> set s"
  unfolding trim_def
  by (metis set_dropWhileD set_rev subsetI)

lemma funcNameMatch_no_paren:
  assumes "CHR ''('' \<notin> set s"
  shows "funcNameMatch s = None"
proof -
  have "take 1 (dropWhile isWhiteSpace (drop k s)) \<noteq> ''(''" for k
  proof
    assume "take 1 (dropWhile isWhiteSpace (drop k s)) = ''(''"
    then have "CHR ''('' \<in> set (take 1 (dropWhile isWhiteSpace (drop k s)))" by simp
    then have "CHR ''('' \<in> set (drop k s)"
      by (meson in_set_takeD set_dropWhileD)
    then show False using assms by (meson in_set_dropD)
  qed
  then show ?thesis by (simp add: funcNameMatch_def)
qed

text \<open>
  C9. An input without an opening parenthesis makes \<open>encodeFunctionCall\<close> throw the error
  \<open>Invalid function signature\<close>, whatever the library functions and the values are.
\<close>

theorem no_parenthesis_is_invalid_signature:
  assumes "CHR ''('' \<notin> set input"
  shows "encodeFunctionCall parseAbiParameters encodeAbiParameters keccak256 input argValues =
           Inl (Error ''Invalid function signature'')"
proof -
  have "CHR ''('' \<notin> set (trim input)"
    using assms set_trim by blast
  then show ?thesis
    by (simp add: encodeFunctionCall_def funcNameMatch_no_paren)
qed

theorem no_parenthesis_is_invalid_signature_witness:
  "CHR ''('' \<notin> set ''transfer'' \<and>
   encodeFunctionCall (\<lambda>s. Inr []) (\<lambda>ps (vs :: unit list). Inr ''0x'') (\<lambda>s. s) ''transfer'' [] =
     Inl (Error ''Invalid function signature'')"
proof -
  have h: "CHR ''('' \<notin> set ''transfer''" by simp
  show ?thesis
    using h no_parenthesis_is_invalid_signature [OF h] by simp
qed


lemma canonical_eraseNames:
  "getCanonicalSignatureForParams (map eraseNames params) = getCanonicalSignatureForParams params"
proof (induction params rule: getCanonicalSignatureForParams.induct)
  case (1 params)
  have "(case abi_components (eraseNames p) of
           Some comps \<Rightarrow>
             if abi_type (eraseNames p) = ''tuple''
             then ''('' @ getCanonicalSignatureForParams comps @ '')''
             else if abi_type (eraseNames p) = ''tuple[]''
             then ''('' @ getCanonicalSignatureForParams comps @ '')[]''
             else abi_type (eraseNames p)
         | None \<Rightarrow> abi_type (eraseNames p)) =
        (case abi_components p of
           Some comps \<Rightarrow>
             if abi_type p = ''tuple''
             then ''('' @ getCanonicalSignatureForParams comps @ '')''
             else if abi_type p = ''tuple[]''
             then ''('' @ getCanonicalSignatureForParams comps @ '')[]''
             else abi_type p
         | None \<Rightarrow> abi_type p)" if "p \<in> set params" for p
  proof (cases p)
    case (AbiParameter t n cs)
    show ?thesis
    proof (cases cs)
      case None
      then show ?thesis by (simp add: AbiParameter)
    next
      case (Some comps)
      then show ?thesis
        using "1.IH"(1) [OF that, of comps] "1.IH"(2) [OF that, of comps]
        by (simp add: AbiParameter)
    qed
  qed
  then show ?case
    by (simp add: getCanonicalSignatureForParams.simps [of params]
        getCanonicalSignatureForParams.simps [of "map eraseNames params"] comp_def cong: map_cong)
qed

definition exampleTupleParser :: "string \<Rightarrow> js_error + AbiParameter list" where
  \<comment> \<open>what \<open>parseAbiParameters\<close> returns on the argument strings of the examples\<close>
  "exampleTupleParser s =
     (if s = ''uint256 a, (uint256 x) t''
      then Inr [AbiParameter ''uint256'' (Some ''a'') None,
                AbiParameter ''tuple'' (Some ''t'') (Some [AbiParameter ''uint256'' (Some ''x'') None])]
      else if s = ''uint256 b, (uint256 x) t''
      then Inr [AbiParameter ''uint256'' (Some ''b'') None,
                AbiParameter ''tuple'' (Some ''t'') (Some [AbiParameter ''uint256'' (Some ''x'') None])]
      else if s = ''address,uint256''
      then Inr [AbiParameter ''address'' None None, AbiParameter ''uint256'' None None]
      else Inl SyntaxError)"

definition exampleZeroEncoder :: "AbiParameter list \<Rightarrow> int list \<Rightarrow> js_error + string" where
  \<comment> \<open>a stand-in for \<open>encodeAbiParameters\<close>: one zero word for each value\<close>
  "exampleZeroEncoder ps vs = Inr (''0x'' @ concat (map (\<lambda>v. replicate 64 CHR ''0'') vs))"

text \<open>
  C2 fails in the code. The greedy \<open>.*\<close> of the regular expression runs to the last
  opening parenthesis of the line, so \<open>funcName\<close> keeps the white space before the
  parenthesis and, when a parameter is a tuple, the arguments before it with their names.
  The selector is the digest of a signature that contains them: two inputs that differ in
  an argument name, or in a space before the parenthesis, are hashed as different texts.
\<close>

theorem argument_names_reach_the_selector:
  "funcNameMatch (trim ''f(uint256 a, (uint256 x) t)'') = Some ''f(uint256 a, '' \<and>
   funcNameMatch (trim ''f(uint256 b, (uint256 x) t)'') = Some ''f(uint256 b, '' \<and>
   funcNameMatch (trim ''transfer (address,uint256)'') = Some ''transfer '' \<and>
   funcNameMatch (trim ''transfer(address,uint256)'') = Some ''transfer'' \<and>
   (\<exists>r. encodeFunctionCall exampleTupleParser exampleZeroEncoder keccak256
          ''f(uint256 a, (uint256 x) t)'' [1, 2] = Inr r \<and>
        part_value (hd (parts r)) = take 10 (keccak256 ''f(uint256 a, (uint256,(uint256))'')) \<and>
   (\<exists>r. encodeFunctionCall exampleTupleParser exampleZeroEncoder keccak256
          ''f(uint256 b, (uint256 x) t)'' [1, 2] = Inr r \<and>
        part_value (hd (parts r)) = take 10 (keccak256 ''f(uint256 b, (uint256,(uint256))'')) \<and>
   (\<exists>r. encodeFunctionCall exampleTupleParser exampleZeroEncoder keccak256
          ''transfer (address,uint256)'' [1, 2] = Inr r \<and>
        part_value (hd (parts r)) = take 10 (keccak256 ''transfer (address,uint256)'')) \<and>
   (\<exists>r. encodeFunctionCall exampleTupleParser exampleZeroEncoder keccak256
          ''transfer(address,uint256)'' [1, 2] = Inr r \<and>
        part_value (hd (parts r)) = take 10 (keccak256 ''transfer(address,uint256)''))"
proof -
  let ?a = "''f(uint256 a, (uint256 x) t)''"
  let ?b = "''f(uint256 b, (uint256 x) t)''"
  let ?c = "''transfer (address,uint256)''"
  let ?e = "''transfer(address,uint256)''"
  have ta: "trim ?a = ?a" and tb: "trim ?b = ?b" and tc: "trim ?c = ?c" and te: "trim ?e = ?e"
    by code_simp+
  have na: "funcNameMatch (trim ?a) = Some ''f(uint256 a, ''" unfolding ta by code_simp
  have nb: "funcNameMatch (trim ?b) = Some ''f(uint256 b, ''" unfolding tb by code_simp
  have nc: "funcNameMatch (trim ?c) = Some ''transfer ''" unfolding tc by code_simp
  have ne: "funcNameMatch (trim ?e) = Some ''transfer''" unfolding te by code_simp
  have aa: "argsStrOf (trim ?a) = ''uint256 a, (uint256 x) t''" unfolding ta by code_simp
  have ab: "argsStrOf (trim ?b) = ''uint256 b, (uint256 x) t''" unfolding tb by code_simp
  have ac: "argsStrOf (trim ?c) = ''address,uint256''" unfolding tc by code_simp
  have ae: "argsStrOf (trim ?e) = ''address,uint256''" unfolding te by code_simp
  have ct: "getCanonicalSignatureForParams
      [AbiParameter ''uint256'' n None,
       AbiParameter ''tuple'' (Some ''t'') (Some [AbiParameter ''uint256'' (Some ''x'') None])] =
      ''uint256,(uint256)''" for n
    by (simp add: getCanonicalSignatureForParams.simps)
  have cs: "getCanonicalSignatureForParams
      [AbiParameter ''address'' None None, AbiParameter ''uint256'' None None] = ''address,uint256''"
    by (simp add: getCanonicalSignatureForParams.simps)
  have ra: "\<exists>r. encodeFunctionCall exampleTupleParser exampleZeroEncoder keccak256 ?a [1, 2] = Inr r \<and>
        part_value (hd (parts r)) = take 10 (keccak256 ''f(uint256 a, (uint256,(uint256))'')"
    by (simp add: encodeFunctionCall_def Let_def na aa exampleTupleParser_def exampleZeroEncoder_def ct)
  have rb: "\<exists>r. encodeFunctionCall exampleTupleParser exampleZeroEncoder keccak256 ?b [1, 2] = Inr r \<and>
        part_value (hd (parts r)) = take 10 (keccak256 ''f(uint256 b, (uint256,(uint256))'')"
    by (simp add: encodeFunctionCall_def Let_def nb ab exampleTupleParser_def exampleZeroEncoder_def ct)
  have rc: "\<exists>r. encodeFunctionCall exampleTupleParser exampleZeroEncoder keccak256 ?c [1, 2] = Inr r \<and>
        part_value (hd (parts r)) = take 10 (keccak256 ''transfer (address,uint256)'')"
    by (simp add: encodeFunctionCall_def Let_def nc ac exampleTupleParser_def exampleZeroEncoder_def cs)
  have re: "\<exists>r. encodeFunctionCall exampleTupleParser exampleZeroEncoder keccak256 ?e [1, 2] = Inr r \<and>
        part_value (hd (parts r)) = take 10 (keccak256 ''transfer(address,uint256)'')"
    by (simp add: encodeFunctionCall_def Let_def ne ae exampleTupleParser_def exampleZeroEncoder_def cs)
  show ?thesis
    using na nb nc ne ra rb rc re by blast
qed

section \<open>Preparing the values\<close>

text \<open>
  \<open>processValues\<close> of the page turns the texts of the form into the values that
  \<open>encodeFunctionCall\<close> receives. \<open>Value\<close> is the page's \<open>string | Value[] | bigint\<close>, with the
  booleans that \<open>processValues\<close> produces. \<open>toBigInt\<close> is \<open>BigInt(v)\<close>, \<open>None\<close> when it throws.
\<close>

datatype Value = VStr string | VList "Value list" | VBig int | VBool bool

definition digitsValue :: "nat \<Rightarrow> string \<Rightarrow> int option" where
  \<comment> \<open>a non-empty run of digits of the given radix\<close>
  "digitsValue radix ds =
     (if ds \<noteq> [] \<and> list_all (\<lambda>c. case hexDigitValue c of Some v \<Rightarrow> v < radix | None \<Rightarrow> False) ds
      then Some (int (foldl (\<lambda>acc c. radix * acc + (case hexDigitValue c of Some v \<Rightarrow> v | None \<Rightarrow> 0)) 0 ds))
      else None)"

definition stringToBigInt :: "string \<Rightarrow> int option" where
  \<comment> \<open>\<open>BigInt(s)\<close> for a string: white space around is dropped, the empty string is 0, a
      decimal literal may carry a sign, and \<open>0x\<close>, \<open>0o\<close> and \<open>0b\<close> literals may not\<close>
  "stringToBigInt s =
     (let t = trim s in
      if t = [] then Some 0
      else if take 2 t = ''0x'' \<or> take 2 t = ''0X'' then digitsValue 16 (drop 2 t)
      else if take 2 t = ''0o'' \<or> take 2 t = ''0O'' then digitsValue 8 (drop 2 t)
      else if take 2 t = ''0b'' \<or> take 2 t = ''0B'' then digitsValue 2 (drop 2 t)
      else if take 1 t = ''-'' then map_option uminus (digitsValue 10 (drop 1 t))
      else if take 1 t = ''+'' then digitsValue 10 (drop 1 t)
      else digitsValue 10 t)"

fun jsToString :: "Value \<Rightarrow> string" where
  \<comment> \<open>\<open>String(v)\<close>: an array is its elements joined by commas\<close>
  "jsToString (VStr s) = s"
| "jsToString (VBig i) = showInt i"
| "jsToString (VBool b) = (if b then ''true'' else ''false'')"
| "jsToString (VList vs) = join '','' (map jsToString vs)"

fun toBigInt :: "Value \<Rightarrow> int option" where
  "toBigInt (VStr s) = stringToBigInt s"
| "toBigInt (VBig i) = Some i"
| "toBigInt (VBool b) = Some (if b then 1 else 0)"
| "toBigInt (VList vs) = stringToBigInt (jsToString (VList vs))"

fun processValuesFrom :: "AbiParameter list \<Rightarrow> nat \<Rightarrow> Value list \<Rightarrow> js_error + Value list"
  and processValue :: "AbiParameter list \<Rightarrow> nat \<Rightarrow> Value \<Rightarrow> js_error + Value" where
  "processValuesFrom params i [] = Inr []"
| "processValuesFrom params i (val # vals) =
     (case processValue params i val of
        Inl e \<Rightarrow> Inl e
      | Inr r \<Rightarrow>
          (case processValuesFrom params (Suc i) vals of
             Inl e \<Rightarrow> Inl e
           | Inr rs \<Rightarrow> Inr (r # rs)))"
| "processValue params i val =
     (if length params \<le> i then Inl TypeError
      else
        (case abi_components (params ! i) of
           Some comps \<Rightarrow>
             (case val of
                VList vs \<Rightarrow>
                  (case processValuesFrom comps 0 vs of
                     Inl e \<Rightarrow> Inl e
                   | Inr rs \<Rightarrow> Inr (VList rs))
              | VStr s \<Rightarrow> if s = [] then Inr (VList []) else Inl TypeError
              | VBig n \<Rightarrow> if n = 0 then Inr (VList []) else Inl TypeError
              | VBool b \<Rightarrow> if b then Inl TypeError else Inr (VList []))
         | None \<Rightarrow>
             if includesStr (abi_type (params ! i)) ''uint'' \<or>
                includesStr (abi_type (params ! i)) ''int''
             then (case toBigInt val of Some n \<Rightarrow> Inr (VBig n) | None \<Rightarrow> Inr (VBig 0))
             else if abi_type (params ! i) = ''bool''
             then (case val of
                     VStr s \<Rightarrow> Inr (VBool (toLowerCase s = ''true''))
                   | _ \<Rightarrow> Inl TypeError)
             else Inr val))"

declare processValue.simps [simp del]

definition processValues :: "AbiParameter list \<Rightarrow> Value list \<Rightarrow> js_error + Value list" where
  "processValues params vals = processValuesFrom params 0 vals"

definition handleEncode ::
  "(string \<Rightarrow> js_error + AbiParameter list) \<Rightarrow>
   (AbiParameter list \<Rightarrow> Value list \<Rightarrow> js_error + string) \<Rightarrow>
   (string \<Rightarrow> string) \<Rightarrow> AbiParameter list \<Rightarrow> Value list \<Rightarrow> string \<Rightarrow>
   js_error + EncodeResult" where
  \<comment> \<open>the body of the page's \<open>handleEncode\<close>, before it catches and displays the error\<close>
  "handleEncode parseAbiParameters encodeAbiParameters keccak256 abiParams argValues input =
     (case processValues abiParams argValues of
        Inl e \<Rightarrow> Inl e
      | Inr processed \<Rightarrow>
          encodeFunctionCall parseAbiParameters encodeAbiParameters keccak256 input processed)"


lemma processValuesFrom_update:
  assumes "processValue params (k + j) x = processValue params (k + j) y" and "j < length vals"
  shows "processValuesFrom params k (vals[j := x]) = processValuesFrom params k (vals[j := y])"
  using assms
proof (induction vals arbitrary: k j)
  case Nil
  then show ?case by simp
next
  case (Cons v vs)
  show ?case
  proof (cases j)
    case 0
    then show ?thesis using Cons.prems by simp
  next
    case (Suc j')
    then have eq: "processValuesFrom params (Suc k) (vs[j' := x]) =
        processValuesFrom params (Suc k) (vs[j' := y])"
      using Cons.IH [of "Suc k" j'] Cons.prems by simp
    show ?thesis unfolding Suc by (simp only: list_update_code processValuesFrom.simps eq)
  qed
qed

definition exampleAmount :: "AbiParameter list" where
  "exampleAmount = [AbiParameter ''uint256'' (Some ''amount'') None]"

text \<open>
  C7 as stated fails. For a \<open>uint256\<close> parameter and the text \<open>abc\<close>, \<open>processValues\<close> returns
  the value 0 and no error, and that is what the encoder is then called with.
\<close>

theorem non_numeric_literal_counterexample:
  "processValues exampleAmount [VStr ''abc''] = Inr [VBig 0]"
proof -
  have "stringToBigInt ''abc'' = None" by code_simp
  moreover have "includesStr ''uint256'' ''uint''" by (simp add: startsWith_def)
  ultimately show ?thesis
    by (simp add: processValues_def exampleAmount_def processValue.simps)
qed

text \<open>
  C7, amended. For a parameter without components whose type contains \<open>uint\<close> or \<open>int\<close>, a
  text that \<open>BigInt\<close> rejects becomes the value 0: the processed values, and with them the
  whole encode step, are those of the value 0 in its place.
\<close>

theorem non_numeric_literal_becomes_zero:
  assumes "i < length params" and "i < length vals"
    and "abi_components (params ! i) = None"
    and "includesStr (abi_type (params ! i)) ''uint'' \<or> includesStr (abi_type (params ! i)) ''int''"
    and "stringToBigInt s = None"
  shows "processValue params i (VStr s) = Inr (VBig 0) \<and>
         processValues params (vals[i := VStr s]) = processValues params (vals[i := VBig 0]) \<and>
         handleEncode parseAbiParameters encodeAbiParameters keccak256 params (vals[i := VStr s]) input =
         handleEncode parseAbiParameters encodeAbiParameters keccak256 params (vals[i := VBig 0]) input"
proof -
  have a: "processValue params i (VStr s) = Inr (VBig 0)"
    using assms by (auto simp: processValue.simps)
  have b: "processValue params i (VBig 0) = Inr (VBig 0)"
    using assms by (auto simp: processValue.simps)
  have c: "processValues params (vals[i := VStr s]) = processValues params (vals[i := VBig 0])"
    unfolding processValues_def
    using processValuesFrom_update [of params 0 i "VStr s" "VBig 0" vals] a b assms(2) by simp
  show ?thesis
    using a c by (simp add: handleEncode_def)
qed

theorem non_numeric_literal_becomes_zero_witness:
  "stringToBigInt ''abc'' = None \<and>
   includesStr (abi_type (exampleAmount ! 0)) ''uint'' \<and>
   processValue exampleAmount 0 (VStr ''abc'') = Inr (VBig 0) \<and>
   processValues exampleAmount ([VStr ''7''][0 := VStr ''abc'']) =
     processValues exampleAmount ([VStr ''7''][0 := VBig 0])"
proof -
  have h1: "0 < length exampleAmount" by (simp add: exampleAmount_def)
  have h2: "0 < length [VStr ''7'']" by simp
  have h3: "abi_components (exampleAmount ! 0) = None" by (simp add: exampleAmount_def)
  have h4: "includesStr (abi_type (exampleAmount ! 0)) ''uint''"
    by (simp add: exampleAmount_def startsWith_def)
  have h5: "stringToBigInt ''abc'' = None" by code_simp
  show ?thesis
    using h4 h5 non_numeric_literal_becomes_zero [OF h1 h2 h3 disjI1 [OF h4] h5]
    by blast
qed

section \<open>The encoder\<close>

text \<open>
  The parameters are encoded by \<open>encodeAbiParameters\<close> of the library \<open>viem\<close>, which is not
  part of the repository. What follows is the Encoder of the specification (sections 3
  and 4.3), on the specification's Type Nodes, with the values of the page as Value Nodes.
  The byte string is written as hexadecimal digits, two per byte, as the program has it.
\<close>

datatype TypeNode =
  UInt nat | SInt nat | Bool | Address | FixedBytes nat | DynamicBytes | Text
| Array TypeNode | Record "(string \<times> TypeNode) list"

datatype encode_error = TypeMismatch | NumericOverflow | InvalidScalar

fun isDynamicType :: "TypeNode \<Rightarrow> bool" where
  \<comment> \<open>Modelled from the spec: section 3, a Type Node is dynamic iff it is DynamicBytes,
      Text, an Array, or a Record with a dynamic field.\<close>
  "isDynamicType DynamicBytes = True"
| "isDynamicType Text = True"
| "isDynamicType (Array t) = True"
| "isDynamicType (Record fs) = list_ex (\<lambda>f. isDynamicType (snd f)) fs"
| "isDynamicType _ = False"

fun staticWords :: "TypeNode \<Rightarrow> nat" where
  \<comment> \<open>Modelled from the spec: section 3, a static scalar occupies one word and a static
      Record the words of its fields; the head holds one word for anything dynamic.\<close>
  "staticWords (Record fs) =
     (if isDynamicType (Record fs) then 1 else sum_list (map (\<lambda>f. staticWords (snd f)) fs))"
| "staticWords _ = 1"


definition hexDigitChar :: "nat \<Rightarrow> char" where
  "hexDigitChar d = (if d < 10 then char_of (48 + d) else char_of (87 + d))"

fun toHex :: "nat \<Rightarrow> string" where
  "toHex n = (if n < 16 then [hexDigitChar n] else toHex (n div 16) @ [hexDigitChar (n mod 16)])"

declare toHex.simps [simp del]

definition word :: "nat \<Rightarrow> string" where
  \<comment> \<open>a 32-byte big-endian unsigned integer\<close>
  "word n = padStart (toHex n) 64 CHR ''0''"

definition byteHex :: "char \<Rightarrow> string" where
  "byteHex c = [hexDigitChar ((of_char c :: nat) div 16), hexDigitChar ((of_char c :: nat) mod 16)]"

definition padRight32 :: "string \<Rightarrow> string" where
  \<comment> \<open>zero bytes up to the next 32-byte boundary\<close>
  "padRight32 h = padEnd h ((length h + 63) div 64 * 64) CHR ''0''"

definition hexLiteral :: "string \<Rightarrow> string option" where
  \<comment> \<open>the digits of a literal \<open>0x...\<close>\<close>
  "hexLiteral s =
     (if take 2 s = ''0x'' \<and> list_all isHexDigit (drop 2 s) then Some (drop 2 s) else None)"

fun encodeScalar :: "TypeNode \<Rightarrow> Value \<Rightarrow> encode_error + string" where
  \<comment> \<open>Modelled from the spec: the scalar padding rule and the error conditions of section
      4.3. A signed integer is written in two's complement over the 32 bytes (section 9);
      the digits of an address are written in lower case, as the program prints them.\<close>
  "encodeScalar (UInt bits) (VBig v) =
     (if v < 0 \<or> 2 ^ bits \<le> v then Inl NumericOverflow
      else Inr (padStart (toHex (nat v)) 64 CHR ''0''))"
| "encodeScalar (UInt bits) (VStr s) = Inl InvalidScalar"
| "encodeScalar (SInt bits) (VBig v) =
     (if v < - (2 ^ (bits - 1)) \<or> 2 ^ (bits - 1) \<le> v then Inl NumericOverflow
      else Inr (padStart (toHex (nat (v mod 2 ^ 256))) 64 CHR ''0''))"
| "encodeScalar (SInt bits) (VStr s) = Inl InvalidScalar"
| "encodeScalar Bool (VBool b) = Inr (padStart (toHex (if b then 1 else 0)) 64 CHR ''0'')"
| "encodeScalar Address (VStr s) =
     (case hexLiteral s of
        Some h \<Rightarrow>
          if length h = 40 then Inr (padStart (toLowerCase h) 64 CHR ''0'') else Inl InvalidScalar
      | None \<Rightarrow> Inl InvalidScalar)"
| "encodeScalar (FixedBytes n) (VStr s) =
     (case hexLiteral s of
        Some h \<Rightarrow> if length h = 2 * n then Inr (padEnd h 64 CHR ''0'') else Inl InvalidScalar
      | None \<Rightarrow> Inl InvalidScalar)"
| "encodeScalar _ _ = Inl TypeMismatch"

function encodeParams :: "TypeNode list \<Rightarrow> Value list \<Rightarrow> encode_error + string"
  and encodeList ::
    "nat \<Rightarrow> TypeNode list \<Rightarrow> Value list \<Rightarrow> encode_error + string \<times> string"
  and encodeStatic :: "TypeNode \<Rightarrow> Value \<Rightarrow> encode_error + string"
  and encodeDynamic :: "TypeNode \<Rightarrow> Value \<Rightarrow> encode_error + string" where
  \<comment> \<open>Modelled from the spec: the algorithm of section 4.3. \<open>encodeList\<close> walks the Type
      Nodes from left to right with the tail cursor, in bytes from the start of the
      parameter area, and returns the head words and the tail buffers. A text is given
      by its UTF-8 bytes, one character each.\<close>
  "encodeParams ts vs =
     (case encodeList (32 * sum_list (map staticWords ts)) ts vs of
        Inl e \<Rightarrow> Inl e
      | Inr (heads, tails) \<Rightarrow> Inr (heads @ tails))"
| "encodeList cursor [] [] = Inr ([], [])"
| "encodeList cursor (t # ts) (v # vs) =
     (if isDynamicType t then
        (case encodeDynamic t v of
           Inl e \<Rightarrow> Inl e
         | Inr buf \<Rightarrow>
             (case encodeList (cursor + length buf div 2) ts vs of
                Inl e \<Rightarrow> Inl e
              | Inr (heads, tails) \<Rightarrow> Inr (word cursor @ heads, buf @ tails)))
      else
        (case encodeStatic t v of
           Inl e \<Rightarrow> Inl e
         | Inr ws \<Rightarrow>
             (case encodeList cursor ts vs of
                Inl e \<Rightarrow> Inl e
              | Inr (heads, tails) \<Rightarrow> Inr (ws @ heads, tails))))"
| "encodeList cursor [] (v # vs) = Inl TypeMismatch"
| "encodeList cursor (t # ts) [] = Inl TypeMismatch"
| "encodeStatic (Record fs) (VList vs) = encodeParams (map snd fs) vs"
| "encodeStatic (Record fs) (VStr s) = Inl TypeMismatch"
| "encodeStatic (Record fs) (VBig i) = Inl TypeMismatch"
| "encodeStatic (Record fs) (VBool b) = Inl TypeMismatch"
| "encodeStatic (UInt bits) v = encodeScalar (UInt bits) v"
| "encodeStatic (SInt bits) v = encodeScalar (SInt bits) v"
| "encodeStatic Bool v = encodeScalar Bool v"
| "encodeStatic Address v = encodeScalar Address v"
| "encodeStatic (FixedBytes n) v = encodeScalar (FixedBytes n) v"
| "encodeStatic DynamicBytes v = Inl TypeMismatch"
| "encodeStatic Text v = Inl TypeMismatch"
| "encodeStatic (Array t) v = Inl TypeMismatch"
| "encodeDynamic Text (VStr s) = Inr (word (length s) @ padRight32 (concat (map byteHex s)))"
| "encodeDynamic DynamicBytes (VStr s) =
     (case hexLiteral s of
        Some h \<Rightarrow>
          if even (length h) then Inr (word (length h div 2) @ padRight32 h)
          else Inl InvalidScalar
      | None \<Rightarrow> Inl InvalidScalar)"
| "encodeDynamic (Array t) (VList vs) =
     (case encodeParams (replicate (length vs) t) vs of
        Inl e \<Rightarrow> Inl e
      | Inr enc \<Rightarrow> Inr (word (length vs) @ enc))"
| "encodeDynamic (Record fs) (VList vs) = encodeParams (map snd fs) vs"
| "encodeDynamic Text (VList vs) = Inl TypeMismatch"
| "encodeDynamic Text (VBig i) = Inl TypeMismatch"
| "encodeDynamic Text (VBool b) = Inl TypeMismatch"
| "encodeDynamic DynamicBytes (VList vs) = Inl TypeMismatch"
| "encodeDynamic DynamicBytes (VBig i) = Inl TypeMismatch"
| "encodeDynamic DynamicBytes (VBool b) = Inl TypeMismatch"
| "encodeDynamic (Array t) (VStr s) = Inl TypeMismatch"
| "encodeDynamic (Array t) (VBig i) = Inl TypeMismatch"
| "encodeDynamic (Array t) (VBool b) = Inl TypeMismatch"
| "encodeDynamic (Record fs) (VStr s) = Inl TypeMismatch"
| "encodeDynamic (Record fs) (VBig i) = Inl TypeMismatch"
| "encodeDynamic (Record fs) (VBool b) = Inl TypeMismatch"
| "encodeDynamic (UInt bits) v = Inl TypeMismatch"
| "encodeDynamic (SInt bits) v = Inl TypeMismatch"
| "encodeDynamic Bool v = Inl TypeMismatch"
| "encodeDynamic Address v = Inl TypeMismatch"
| "encodeDynamic (FixedBytes n) v = Inl TypeMismatch"
  by pat_completeness auto
termination
  by (relation "measure (\<lambda>x. case x of
        Inl (Inl (ts, vs)) \<Rightarrow> 2 * size_list size vs + 1
      | Inl (Inr (c, ts, vs)) \<Rightarrow> 2 * size_list size vs
      | Inr (Inl (t, v)) \<Rightarrow> 2 * size v + 1
      | Inr (Inr (t, v)) \<Rightarrow> 2 * size v + 1)") auto


declare encodeParams.simps [simp del]

fun typeString :: "TypeNode \<Rightarrow> string" where
  "typeString (UInt bits) = ''uint'' @ showNat bits"
| "typeString (SInt bits) = ''int'' @ showNat bits"
| "typeString Bool = ''bool''"
| "typeString Address = ''address''"
| "typeString (FixedBytes n) = ''bytes'' @ showNat n"
| "typeString DynamicBytes = ''bytes''"
| "typeString Text = ''string''"
| "typeString (Array t) = typeString t @ ''[]''"
| "typeString (Record fs) = ''tuple''"

fun abiParam :: "string option \<Rightarrow> TypeNode \<Rightarrow> AbiParameter"
  and componentsOf :: "TypeNode \<Rightarrow> AbiParameter list option" where
  \<comment> \<open>the parameter that the parser returns for a Type Node: the type string, the name
      and, for a tuple or an array of tuples, the fields as components\<close>
  "abiParam n t = AbiParameter (typeString t) n (componentsOf t)"
| "componentsOf (Record fs) = Some (map (\<lambda>f. abiParam (Some (fst f)) (snd f)) fs)"
| "componentsOf (Array t) = componentsOf t"
| "componentsOf (UInt bits) = None"
| "componentsOf (SInt bits) = None"
| "componentsOf Bool = None"
| "componentsOf Address = None"
| "componentsOf (FixedBytes n) = None"
| "componentsOf DynamicBytes = None"
| "componentsOf Text = None"

lemma hexDigitChar_simps:
  "hexDigitChar 0 = CHR ''0''" "hexDigitChar 1 = CHR ''1''" "hexDigitChar 2 = CHR ''2''"
  "hexDigitChar 3 = CHR ''3''" "hexDigitChar 4 = CHR ''4''" "hexDigitChar 5 = CHR ''5''"
  "hexDigitChar 6 = CHR ''6''" "hexDigitChar 7 = CHR ''7''" "hexDigitChar 8 = CHR ''8''"
  "hexDigitChar 9 = CHR ''9''" "hexDigitChar 10 = CHR ''a''" "hexDigitChar 11 = CHR ''b''"
  "hexDigitChar 12 = CHR ''c''" "hexDigitChar 13 = CHR ''d''" "hexDigitChar 14 = CHR ''e''"
  "hexDigitChar 15 = CHR ''f''" "hexDigitChar (Suc 0) = CHR ''1''"
  by code_simp+

lemma replicate_numeral: "replicate (numeral k) x = x # replicate (pred_numeral k) x"
  by (simp add: numeral_eq_Suc)

lemma toHex_numeral:
  "toHex (numeral k) =
     (if (numeral k :: nat) < 16 then [hexDigitChar (numeral k)]
      else toHex (numeral k div 16) @ [hexDigitChar (numeral k mod 16)])"
  by (rule toHex.simps)

lemma toHex_small: "toHex 0 = ''0''" "toHex 1 = ''1''" "toHex (Suc 0) = ''1''"
  by (simp_all add: toHex.simps hexDigitChar_simps)

lemma less_16_cases:
  "d < 16 \<Longrightarrow> d \<in> {0, 1, 2, 3, 4, 5, 6, 7, 8, 9, 10, 11, 12, 13, 14, 15 :: nat}"
  by (simp add: insert_commute) arith


lemma hexDigitValue_hexDigitChar: "d < 16 \<Longrightarrow> hexDigitValue (hexDigitChar d) = Some d"
  using less_16_cases [of d]
  by (auto simp: hexDigitChar_simps hexDigitValue_simps)

lemma isHexDigit_hexDigitChar: "d < 16 \<Longrightarrow> isHexDigit (hexDigitChar d)"
  by (simp add: isHexDigit_def hexDigitValue_hexDigitChar)

lemma hexValue_snoc:
  "hexValue (s @ [c]) = 16 * hexValue s + (case hexDigitValue c of Some d \<Rightarrow> d | None \<Rightarrow> 0)"
  by (simp add: hexValue_def)

lemma hexValue_toHex: "hexValue (toHex n) = n"
proof (induction n rule: toHex.induct)
  case (1 n)
  show ?case
  proof (cases "n < 16")
    case True
    then show ?thesis
      by (simp add: toHex.simps [of n] hexValue_def hexDigitValue_hexDigitChar)
  next
    case False
    then show ?thesis
      using 1 by (simp add: toHex.simps [of n] hexValue_snoc hexDigitValue_hexDigitChar)
  qed
qed

lemma isHexDigit_toHex: "list_all isHexDigit (toHex n)"
proof (induction n rule: toHex.induct)
  case (1 n)
  show ?case
  proof (cases "n < 16")
    case True
    then show ?thesis by (simp add: toHex.simps [of n] isHexDigit_hexDigitChar)
  next
    case False
    then show ?thesis
      using 1 by (simp add: toHex.simps [of n] isHexDigit_hexDigitChar)
  qed
qed

lemma toHex_nonempty: "toHex n \<noteq> []"
  by (simp add: toHex.simps [of n])

lemma length_toHex: "n < 16 ^ k \<Longrightarrow> 0 < k \<Longrightarrow> length (toHex n) \<le> k"
proof (induction n arbitrary: k rule: toHex.induct)
  case (1 n)
  show ?case
  proof (cases "n < 16")
    case True
    then show ?thesis using "1.prems" by (simp add: toHex.simps [of n])
  next
    case False
    then obtain j where k: "k = Suc j" "0 < j"
      using "1.prems" by (cases k; cases "k - 1") auto
    have "n div 16 < 16 ^ j"
      using "1.prems"(1) by (simp add: k less_mult_imp_div_less mult.commute)
    then have "length (toHex (n div 16)) \<le> j"
      using "1.IH" [OF False _ k(2)] by simp
    then show ?thesis using False by (simp add: toHex.simps [of n] k)
  qed
qed

lemma hexValue_zeros: "hexValue (replicate k CHR ''0'' @ s) = hexValue s"
proof -
  have "foldl (\<lambda>acc c. 16 * acc + (case hexDigitValue c of Some d \<Rightarrow> d | None \<Rightarrow> 0)) 0
          (replicate k CHR ''0'') = 0"
  proof (induction k)
    case 0
    show ?case by simp
  next
    case (Suc k)
    have "replicate (Suc k) CHR ''0'' = replicate k CHR ''0'' @ ''0''"
      by (simp add: replicate_append_same)
    then show ?case using Suc by (simp add: hexDigitValue_simps del: replicate.simps)
  qed
  then show ?thesis by (simp add: hexValue_def)
qed

lemma length_word: "n < 2 ^ 256 \<Longrightarrow> length (word n) = 64"
proof -
  assume "n < 2 ^ 256"
  then have "n < (16::nat) ^ 64" by simp
  then have "length (toHex n) \<le> 64" by (rule length_toHex) simp
  then show ?thesis by (simp add: word_def padStart_def)
qed

lemma isHexDigit_word: "list_all isHexDigit (word n)"
  by (simp add: word_def padStart_def isHexDigit_toHex isHexDigit_simps list_all_iff [of _ "replicate _ _"])

lemma hexValue_word: "hexValue (word n) = n"
  by (simp add: word_def padStart_def hexValue_zeros hexValue_toHex)

lemma parseInt16_word: "n < 2 ^ 53 \<Longrightarrow> parseInt16 (word n) = Some (int n)"
proof -
  assume n: "n < 2 ^ 53"
  have "word n \<noteq> []" by (simp add: word_def padStart_def toHex_nonempty)
  then show ?thesis
    using n by (simp add: parseInt16_hex isHexDigit_word hexValue_word)
qed






















definition exampleNestedRecord :: TypeNode where
  "exampleNestedRecord =
     Record [(''inner'', Record [(''x'', UInt 256), (''y'', UInt 256)]), (''z'', UInt 256)]"

definition exampleNestedValue :: Value where
  "exampleNestedValue = VList [VList [VBig 1, VBig 2], VBig 3]"

lemma typeString_uint256: "typeString (UInt 256) = ''uint256''"
  by (simp add: showNat_numeral digitChar_simps)

text \<open>
  C4 fails in the code. A static tuple whose first field is a static tuple of two words
  is encoded in three words, but the first pass takes as many slots as the tuple has
  components, two: the head part of the tuple shows two words, and its last field, read
  past the end of these, shows zero instead of 3.
\<close>

theorem nested_static_record_misread:
  "encodeParams [exampleNestedRecord] [exampleNestedValue] =
     Inr ''000000000000000000000000000000000000000000000000000000000000000100000000000000000000000000000000000000000000000000000000000000020000000000000000000000000000000000000000000000000000000000000003'' \<and>
   fst (buildFlatBreakdown [abiParam (Some ''t'') exampleNestedRecord]
          ''000000000000000000000000000000000000000000000000000000000000000100000000000000000000000000000000000000000000000000000000000000020000000000000000000000000000000000000000000000000000000000000003'') =
     [CalldataPart ''t (tuple)'' ''tuple''
        ''0x00000000000000000000000000000000000000000000000000000000000000010000000000000000000000000000000000000000000000000000000000000002'' None
        (Some [CalldataPart ''inner (tuple)'' ''tuple''
                 ''0x00000000000000000000000000000000000000000000000000000000000000010000000000000000000000000000000000000000000000000000000000000002'' None
                 (Some [CalldataPart ''x (uint256)'' ''bytes32''
                          ''0x0000000000000000000000000000000000000000000000000000000000000001'' None None,
                        CalldataPart ''y (uint256)'' ''bytes32''
                          ''0x0000000000000000000000000000000000000000000000000000000000000002'' None None]),
               CalldataPart ''z (uint256)'' ''bytes32''
                 ''0x0000000000000000000000000000000000000000000000000000000000000000'' None None])]"
proof -
  have e: "encodeParams [exampleNestedRecord] [exampleNestedValue] =
     Inr ''000000000000000000000000000000000000000000000000000000000000000100000000000000000000000000000000000000000000000000000000000000020000000000000000000000000000000000000000000000000000000000000003''"
    by (simp add: exampleNestedRecord_def exampleNestedValue_def encodeParams.simps
        toHex_numeral toHex_small hexDigitChar_simps padStart_def replicate_numeral)
  have inner: "buildFlatBreakdown
      [AbiParameter ''uint256'' (Some ''x'') None, AbiParameter ''uint256'' (Some ''y'') None]
      ''00000000000000000000000000000000000000000000000000000000000000010000000000000000000000000000000000000000000000000000000000000002'' =
      ([CalldataPart ''x (uint256)'' ''bytes32''
          ''0x0000000000000000000000000000000000000000000000000000000000000001'' None None,
        CalldataPart ''y (uint256)'' ''bytes32''
          ''0x0000000000000000000000000000000000000000000000000000000000000002'' None None], [])"
    by (simp add: substring_nonneg buildFlatBreakdown_unfold headPart_def headItem_def
        slotChars_def endsWith_def paramNameOf_def padTo32Bytes_full sortByOffset_def)
  have outer: "buildFlatBreakdown
      [AbiParameter ''tuple'' (Some ''inner'')
         (Some [AbiParameter ''uint256'' (Some ''x'') None,
                AbiParameter ''uint256'' (Some ''y'') None]),
       AbiParameter ''uint256'' (Some ''z'') None]
      ''00000000000000000000000000000000000000000000000000000000000000010000000000000000000000000000000000000000000000000000000000000002'' =
      ([CalldataPart ''inner (tuple)'' ''tuple''
          ''0x00000000000000000000000000000000000000000000000000000000000000010000000000000000000000000000000000000000000000000000000000000002'' None
          (Some [CalldataPart ''x (uint256)'' ''bytes32''
                   ''0x0000000000000000000000000000000000000000000000000000000000000001'' None None,
                 CalldataPart ''y (uint256)'' ''bytes32''
                   ''0x0000000000000000000000000000000000000000000000000000000000000002'' None None]),
        CalldataPart ''z (uint256)'' ''bytes32''
          ''0x0000000000000000000000000000000000000000000000000000000000000000'' None None], [])"
    by (simp add: substring_nonneg buildFlatBreakdown_unfold [of "[_, _]"] headPart_def
        headItem_def slotChars_def endsWith_def paramNameOf_def padTo32Bytes_def startsWith_def
        padStart_def replicate_numeral sortByOffset_def inner)
  have top: "fst (buildFlatBreakdown [abiParam (Some ''t'') exampleNestedRecord]
          ''000000000000000000000000000000000000000000000000000000000000000100000000000000000000000000000000000000000000000000000000000000020000000000000000000000000000000000000000000000000000000000000003'') =
     [CalldataPart ''t (tuple)'' ''tuple''
        ''0x00000000000000000000000000000000000000000000000000000000000000010000000000000000000000000000000000000000000000000000000000000002'' None
        (Some (fst (buildFlatBreakdown
                      [AbiParameter ''tuple'' (Some ''inner'')
                         (Some [AbiParameter ''uint256'' (Some ''x'') None,
                                AbiParameter ''uint256'' (Some ''y'') None]),
                       AbiParameter ''uint256'' (Some ''z'') None]
                      ''00000000000000000000000000000000000000000000000000000000000000010000000000000000000000000000000000000000000000000000000000000002'') @
               snd (buildFlatBreakdown
                      [AbiParameter ''tuple'' (Some ''inner'')
                         (Some [AbiParameter ''uint256'' (Some ''x'') None,
                                AbiParameter ''uint256'' (Some ''y'') None]),
                       AbiParameter ''uint256'' (Some ''z'') None]
                      ''00000000000000000000000000000000000000000000000000000000000000010000000000000000000000000000000000000000000000000000000000000002'')))]"
    by (simp add: exampleNestedRecord_def showNat_numeral digitChar_simps substring_nonneg
        buildFlatBreakdown_unfold [of "[_]"] headPart_def endsWith_def paramNameOf_def)
  show ?thesis
    unfolding top outer using e by simp
qed

end
